theory Spec2Isabelle
  imports Complex_Main "HOL-Library.Word" "HOL-Library.Sublist" "HOL-Library.Multiset"
    "HOL-Library.Log_Nat"
begin

chapter \<open>The program\<close>

section \<open>Strings and errors of the runtime\<close>

text \<open>
  A JavaScript string is a sequence of UTF-16 code units: \<open>length\<close> is the
  source's \<open>.length\<close>, \<open>take n\<close> is \<open>.slice(0, n)\<close>, \<open>prefix p s\<close> is
  \<open>s.startsWith(p)\<close>.  The literals of the source are ASCII and are written with
  \<open>js\<close>.
\<close>

type_synonym char16 = "16 word"
type_synonym jstring = "char16 list"

definition js :: "string \<Rightarrow> jstring" where
  "js s = map of_char s"

text \<open>
  What the source can throw: the error object a remote store hands back (kept as it
  is), an \<open>Error\<close> built by the source with its message, and the runtime's own
  \<open>SyntaxError\<close> (JSON decoding), \<open>URIError\<close> (percent-encoding) and \<open>TypeError\<close>
  (a method called on a value that does not have it).
\<close>

datatype js_error =
    StoreError jstring
  | Error jstring
  | SyntaxError
  | URIError
  | TypeError

section \<open>Blog media: files, media items, classification and upload\<close>

text \<open>\<open>BlogsManagement.tsx\<close>: \<open>type MediaItem = { type: "image" | "video" | "audio"; url: string }\<close>;
  of a browser \<open>File\<close> the source reads \<open>name\<close> and \<open>type\<close> (the declared MIME type).\<close>

datatype media_type = IMAGE | VIDEO | AUDIO

record MediaItem =
  item_type :: media_type
  item_url :: jstring

record File =
  file_name :: jstring
  file_type :: jstring

text \<open>Lines 104-107 of \<open>uploadFiles\<close>:
  \<^verbatim>\<open>let type = "image"; if (mime.startsWith("video/")) type = "video";
  else if (mime.startsWith("audio/")) type = "audio";\<close>\<close>

definition classify :: "jstring \<Rightarrow> media_type" where
  "classify mime =
     (if prefix (js ''video/'') mime then VIDEO
      else if prefix (js ''audio/'') mime then AUDIO
      else IMAGE)"

text \<open>
  The object store is a remote service.  Its state is the list of stored objects and
  the log of every upload call with its outcome; whether a call fails is the store's
  decision (\<open>upload_error\<close>, which may look at the store, the path and the file).
\<close>

record storage =
  objects :: "(jstring \<times> File) list"
  attempts :: "(jstring \<times> File \<times> js_error option) list"

record env =
  user_id :: "jstring option"
  stamp :: "nat \<Rightarrow> jstring"
  upload_error :: "storage \<Rightarrow> jstring \<Rightarrow> File \<Rightarrow> js_error option"
  getPublicUrl :: "jstring \<Rightarrow> jstring"

text \<open>\<open>supabase.storage.from("blog-media").upload(path, file)\<close>: one call, logged with
  its outcome; the object is stored when the store reports no error.\<close>

definition storage_upload :: "env \<Rightarrow> storage \<Rightarrow> jstring \<Rightarrow> File \<Rightarrow> js_error option \<times> storage" where
  "storage_upload e st path f =
     (case upload_error e st path f of
        None \<Rightarrow> (None, st\<lparr>objects := objects st @ [(path, f)],
                          attempts := attempts st @ [(path, f, None)]\<rparr>)
      | Some err \<Rightarrow> (Some err, st\<lparr>attempts := attempts st @ [(path, f, Some err)]\<rparr>))"

text \<open>\<open>file.name.split(".").pop()\<close>: the part of the name after its last dot, the
  whole name when it has none.\<close>

definition ext_of :: "jstring \<Rightarrow> jstring" where
  "ext_of name = rev (takeWhile (\<lambda>c. c \<noteq> of_char CHR ''.'') (rev name))"

text \<open>The storage path
  \<^verbatim>\<open>`${user?.id}/${Date.now()}-${Math.random().toString(36).slice(2)}.${ext}`\<close>:
  \<open>stamp e i\<close> is the text the clock and the random source give at the \<open>i\<close>-th
  file; a missing user prints as \<open>undefined\<close>.\<close>

definition upload_path :: "env \<Rightarrow> nat \<Rightarrow> File \<Rightarrow> jstring" where
  "upload_path e i f =
     (case user_id e of None \<Rightarrow> js ''undefined'' | Some u \<Rightarrow> u)
       @ js ''/'' @ stamp e i @ js ''.'' @ ext_of (file_name f)"

text \<open>The \<open>for (const file of files)\<close> loop of \<open>uploadFiles\<close>: \<open>i\<close> counts the files
  done, \<open>uploaded\<close> is the list built so far.  A store error is thrown as it is and
  ends the loop.\<close>

fun upload_loop ::
  "env \<Rightarrow> File list \<Rightarrow> nat \<Rightarrow> MediaItem list \<Rightarrow> storage \<Rightarrow> (js_error + MediaItem list) \<times> storage" where
  "upload_loop e [] i uploaded st = (Inr uploaded, st)"
| "upload_loop e (f # fs) i uploaded st =
     (let path = upload_path e i f;
          (uploadError, st') = storage_upload e st path f
      in case uploadError of
           Some err \<Rightarrow> (Inl err, st')
         | None \<Rightarrow>
             upload_loop e fs (Suc i)
               (uploaded @ [\<lparr>item_type = classify (file_type f), item_url = getPublicUrl e path\<rparr>])
               st')"

definition uploadFiles ::
  "env \<Rightarrow> File list \<Rightarrow> storage \<Rightarrow> (js_error + MediaItem list) \<times> storage" where
  "uploadFiles e files st =
     (if files = [] then (Inr [], st) else upload_loop e files 0 [] st)"

text \<open>For stating what the loop does: the files with their positions, and what the
  \<open>k\<close>-th file becomes (its media item, its logged call, its stored object).\<close>

definition enumerate_from :: "nat \<Rightarrow> 'a list \<Rightarrow> (nat \<times> 'a) list" where
  "enumerate_from i xs = zip [i..<i + length xs] xs"

definition media_of :: "env \<Rightarrow> nat \<times> File \<Rightarrow> MediaItem" where
  "media_of e p = \<lparr>item_type = classify (file_type (snd p)), item_url = getPublicUrl e (upload_path e (fst p) (snd p))\<rparr>"

definition ok_call :: "env \<Rightarrow> nat \<times> File \<Rightarrow> jstring \<times> File \<times> js_error option" where
  "ok_call e p = (upload_path e (fst p) (snd p), snd p, None)"

definition stored :: "env \<Rightarrow> nat \<times> File \<Rightarrow> jstring \<times> File" where
  "stored e p = (upload_path e (fst p) (snd p), snd p)"

text \<open>A store for the examples: user \<open>u1\<close>, a fixed stamp, a store that refuses the
  file named \<open>b.png\<close> with the error \<open>quota\<close>, and three files.\<close>

definition demo_env :: env where
  "demo_env = \<lparr>user_id = Some (js ''u1''), stamp = (\<lambda>i. js ''t''),
     upload_error = (\<lambda>st path f.
        if file_name f = js ''b.png'' then Some (StoreError (js ''quota'')) else None),
     getPublicUrl = (\<lambda>p. js ''https://cdn/'' @ p)\<rparr>"

definition empty_storage :: storage where
  "empty_storage = \<lparr>objects = [], attempts = []\<rparr>"

definition file_a :: File where
  "file_a = \<lparr>file_name = js ''a.mp4'', file_type = js ''video/mp4''\<rparr>"

definition file_b :: File where
  "file_b = \<lparr>file_name = js ''b.png'', file_type = js ''image/png''\<rparr>"

definition file_c :: File where
  "file_c = \<lparr>file_name = js ''c'', file_type = js ''''\<rparr>"

section \<open>Numbers of the runtime\<close>

text \<open>
  A JavaScript number is an IEEE 754 binary64 value: \<open>Fin x\<close> is the finite double
  whose exact value is the rational \<open>x\<close>, \<open>PosInf\<close> and \<open>NegInf\<close> are the two
  infinities, \<open>NaN\<close> is not-a-number.  The two zeros are one value, \<open>Fin 0\<close>: no
  operation modelled here tells them apart.
\<close>

datatype number = Fin rat | PosInf | NegInf | NaN

text \<open>\<open>ilog2 a\<close> is the binary exponent of a positive rational: the \<open>e\<close> with
  \<open>2^e \<le> a < 2^(e+1)\<close>.\<close>

definition ilog2 :: "rat \<Rightarrow> int" where
  "ilog2 a = (if 1 \<le> a then int (floorlog 2 (nat \<lfloor>a\<rfloor>)) - 1
              else - int (ceillog2 (nat \<lceil>1 / a\<rceil>)))"

text \<open>Rounding to the nearest integer, a tie to the even one.\<close>

definition round_even :: "rat \<Rightarrow> int" where
  "round_even r =
     (let f = \<lfloor>r\<rfloor>; d = r - of_int f
      in if d < 1 / 2 then f else if 1 / 2 < d then f + 1 else if even f then f else f + 1)"

text \<open>The spacing of the doubles around a positive rational: 52 fraction bits below its
  exponent, the exponent not below \<open>-1022\<close> (the subnormal range has the spacing
  \<open>2^-1074\<close>).\<close>

definition quantum :: "rat \<Rightarrow> rat" where
  "quantum a = 2 powi (max (ilog2 a) (- 1022) - 52)"

text \<open>
  \<open>rd x\<close> is the double a real result \<open>x\<close> is rounded to (round to nearest, ties to
  even): the nearest multiple of the spacing, and an infinity when that is \<open>2^1024\<close>
  or more.  Every arithmetic operation of the language returns its exact result rounded
  so.
\<close>

definition rd :: "rat \<Rightarrow> number" where
  "rd x =
     (if x = 0 then Fin 0
      else
        let m = of_int (round_even (\<bar>x\<bar> / quantum \<bar>x\<bar>)) * quantum \<bar>x\<bar>
        in if 2 powi 1024 \<le> m then (if x < 0 then NegInf else PosInf)
           else Fin (if x < 0 then - m else m))"

text \<open>\<open>a + b\<close> and \<open>a * b\<close> on numbers.\<close>

definition js_add :: "number \<Rightarrow> number \<Rightarrow> number" where
  "js_add a b =
     (case a of
        Fin x \<Rightarrow> (case b of Fin y \<Rightarrow> rd (x + y) | PosInf \<Rightarrow> PosInf | NegInf \<Rightarrow> NegInf | NaN \<Rightarrow> NaN)
      | PosInf \<Rightarrow> (case b of Fin y \<Rightarrow> PosInf | PosInf \<Rightarrow> PosInf | NegInf \<Rightarrow> NaN | NaN \<Rightarrow> NaN)
      | NegInf \<Rightarrow> (case b of Fin y \<Rightarrow> NegInf | PosInf \<Rightarrow> NaN | NegInf \<Rightarrow> NegInf | NaN \<Rightarrow> NaN)
      | NaN \<Rightarrow> NaN)"

definition js_mul :: "number \<Rightarrow> number \<Rightarrow> number" where
  "js_mul a b =
     (case a of
        Fin x \<Rightarrow>
          (case b of
             Fin y \<Rightarrow> rd (x * y)
           | PosInf \<Rightarrow> (if x = 0 then NaN else if 0 < x then PosInf else NegInf)
           | NegInf \<Rightarrow> (if x = 0 then NaN else if 0 < x then NegInf else PosInf)
           | NaN \<Rightarrow> NaN)
      | PosInf \<Rightarrow>
          (case b of
             Fin y \<Rightarrow> (if y = 0 then NaN else if 0 < y then PosInf else NegInf)
           | PosInf \<Rightarrow> PosInf | NegInf \<Rightarrow> NegInf | NaN \<Rightarrow> NaN)
      | NegInf \<Rightarrow>
          (case b of
             Fin y \<Rightarrow> (if y = 0 then NaN else if 0 < y then NegInf else PosInf)
           | PosInf \<Rightarrow> NegInf | NegInf \<Rightarrow> PosInf | NaN \<Rightarrow> NaN)
      | NaN \<Rightarrow> NaN)"


text \<open>For stating properties: the negation of a number, the exact value of a number
  (0 for the three that have none), and the numbers that are doubles (\<open>Fin x\<close> with
  \<open>x\<close> a value rounding leaves as it is).\<close>

definition js_neg :: "number \<Rightarrow> number" where
  "js_neg v = (case v of Fin x \<Rightarrow> Fin (- x) | PosInf \<Rightarrow> NegInf | NegInf \<Rightarrow> PosInf | NaN \<Rightarrow> NaN)"


definition is_double :: "number \<Rightarrow> bool" where
  "is_double v = (case v of Fin x \<Rightarrow> rd x = Fin x | _ \<Rightarrow> True)"

section \<open>Values of the runtime and rows of the blogs table\<close>

text \<open>
  A value as the client library hands it over (the source types the rows \<open>any\<close>):
  \<open>undefined\<close>, \<open>null\<close>, a boolean, a number, a string, an array or an object.
\<close>

datatype jsval =
    Undefined
  | Null
  | Bool bool
  | Num number
  | Str jstring
  | Arr "jsval list"
  | Obj "(jstring \<times> jsval) list"

text \<open>A row of the remote table \<open>blogs\<close>.  The \<open>media\<close> cell is kept as the value
  the client receives; \<open>created_at\<close> is the point in time the column holds.\<close>

record blog_row =
  blog_id :: jstring
  blog_title :: jstring
  blog_content :: jstring
  blog_excerpt :: "jstring option"
  blog_media :: jsval
  blog_is_published :: bool
  blog_created_at :: nat
  blog_author_id :: "jstring option"

text \<open>A media list as the JSON value written to the \<open>media\<close> column, and back (what
  \<open>blog.media as MediaItem[]\<close> reads of such a value).\<close>

definition type_name :: "media_type \<Rightarrow> jstring" where
  "type_name t = (case t of IMAGE \<Rightarrow> js ''image'' | VIDEO \<Rightarrow> js ''video'' | AUDIO \<Rightarrow> js ''audio'')"

definition media_json :: "MediaItem list \<Rightarrow> jsval" where
  "media_json ms =
     Arr (map (\<lambda>m. Obj [(js ''type'', Str (type_name (item_type m))), (js ''url'', Str (item_url m))]) ms)"

section \<open>The blog editor: form state and file selection\<close>

text \<open>The state of \<open>BlogsManagement\<close> (its \<open>useState\<close> cells), with the list of error
  notices \<open>toast.error\<close> has shown.\<close>

record editor =
  title :: jstring
  content :: jstring
  publish :: bool
  editingBlog :: "blog_row option"
  existingMedia :: "MediaItem list"
  newFiles :: "File list"
  toasts :: "jstring list"

definition is_image_file :: "File \<Rightarrow> bool" where
  "is_image_file f \<longleftrightarrow> prefix (js ''image/'') (file_type f)"

definition is_image_item :: "MediaItem \<Rightarrow> bool" where
  "is_image_item m \<longleftrightarrow> item_type m = IMAGE"

text \<open>The loop of \<open>handleFileChange\<close> (lines 205-219): \<open>c\<close> is \<open>currentImageCount\<close>,
  \<open>allowedFiles\<close> and \<open>rejectedImages\<close> are the loop's two variables.\<close>

fun select_loop :: "nat \<Rightarrow> File list \<Rightarrow> File list \<Rightarrow> nat \<Rightarrow> File list \<times> nat" where
  "select_loop c [] allowedFiles rejectedImages = (allowedFiles, rejectedImages)"
| "select_loop c (file # files) allowedFiles rejectedImages =
     (if is_image_file file then
        (if c + length (filter is_image_file allowedFiles) < 4
         then select_loop c files (allowedFiles @ [file]) rejectedImages
         else select_loop c files allowedFiles (Suc rejectedImages))
      else select_loop c files (allowedFiles @ [file]) rejectedImages)"

definition handleFileChange :: "editor \<Rightarrow> File list \<Rightarrow> editor" where
  "handleFileChange s files =
     (if files = [] then s
      else
        let currentImageCount =
              length (filter is_image_item (existingMedia s)) +
              length (filter is_image_file (newFiles s));
            (allowedFiles, rejectedImages) = select_loop currentImageCount files [] 0;
            s' = (if rejectedImages > 0
                  then s\<lparr>toasts := toasts s @ [js ''Maximum 4 images allowed'']\<rparr>
                  else s)
        in s'\<lparr>newFiles := newFiles s' @ allowedFiles\<rparr>)"

text \<open>The number the cap is about: saved media items of type image plus staged files
  whose MIME type starts with \<open>image/\<close>.\<close>

definition image_count :: "editor \<Rightarrow> nat" where
  "image_count s =
     length (filter is_image_item (existingMedia s)) + length (filter is_image_file (newFiles s))"

text \<open>For stating the result: the selection with every image after the first \<open>n\<close>
  images left out.\<close>

fun cap_images :: "nat \<Rightarrow> File list \<Rightarrow> File list" where
  "cap_images n [] = []"
| "cap_images n (f # fs) =
     (if is_image_file f
      then (case n of 0 \<Rightarrow> cap_images 0 fs | Suc m \<Rightarrow> f # cap_images m fs)
      else f # cap_images n fs)"

text \<open>\<open>handleEdit\<close> (lines 227-234); \<open>saved\<close> is \<open>blog.media || []\<close> read as a media list.\<close>

definition handleEdit :: "editor \<Rightarrow> blog_row \<Rightarrow> MediaItem list \<Rightarrow> editor" where
  "handleEdit s blog saved =
     s\<lparr>editingBlog := Some blog, title := blog_title blog, content := blog_content blog,
       publish := blog_is_published blog, existingMedia := saved, newFiles := []\<rparr>"

definition resetForm :: "editor \<Rightarrow> editor" where
  "resetForm s = s\<lparr>title := [], content := [], publish := True, editingBlog := None,
                   existingMedia := [], newFiles := []\<rparr>"

definition initial_editor :: editor where
  "initial_editor = \<lparr>title = [], content = [], publish = True, editingBlog = None,
                      existingMedia = [], newFiles = [], toasts = []\<rparr>"

text \<open>Files and items for the examples.\<close>

definition png :: File where
  "png = \<lparr>file_name = js ''p.png'', file_type = js ''image/png''\<rparr>"

definition jpg :: File where
  "jpg = \<lparr>file_name = js ''q.jpg'', file_type = js ''image/jpeg''\<rparr>"

definition pdf :: File where
  "pdf = \<lparr>file_name = js ''d.pdf'', file_type = js ''application/pdf''\<rparr>"

definition saved_image :: MediaItem where
  "saved_image = \<lparr>item_type = IMAGE, item_url = js ''https://cdn/i.png''\<rparr>"

section \<open>Creating and updating a blog post\<close>

text \<open>\<open>String.prototype.trim\<close> removes the white space and line terminators of
  ECMAScript from both ends: TAB, LF, VT, FF, CR, SP, NBSP, U+1680, U+2000 to U+200A,
  U+2028, U+2029, U+202F, U+205F, U+3000 and U+FEFF.\<close>

definition is_js_space :: "char16 \<Rightarrow> bool" where
  "is_js_space c \<longleftrightarrow>
     c = 0x9 \<or> c = 0xA \<or> c = 0xB \<or> c = 0xC \<or> c = 0xD \<or> c = 0x20 \<or> c = 0xA0 \<or>
     c = 0x1680 \<or> (0x2000 \<le> c \<and> c \<le> 0x200A) \<or> c = 0x2028 \<or> c = 0x2029 \<or>
     c = 0x202F \<or> c = 0x205F \<or> c = 0x3000 \<or> c = 0xFEFF"

definition trim :: "jstring \<Rightarrow> jstring" where
  "trim s = rev (dropWhile is_js_space (rev (dropWhile is_js_space s)))"

text \<open>\<open>a || b\<close> on strings: the empty string is the falsy one.\<close>

definition or_str :: "jstring \<Rightarrow> jstring \<Rightarrow> jstring" where
  "or_str a b = (if a = [] then b else a)"

text \<open>Lines 122 and 152: \<^verbatim>\<open>content.length > 150 ? content.slice(0, 150) + "..." : content\<close>;
  lines 125 and 155: \<^verbatim>\<open>title.trim() || content.slice(0, 60) || "Untitled"\<close>.\<close>

definition excerpt_of :: "jstring \<Rightarrow> jstring" where
  "excerpt_of c = (if length c > 150 then take 150 c @ js ''...'' else c)"

definition title_of :: "jstring \<Rightarrow> jstring \<Rightarrow> jstring" where
  "title_of t c = or_str (trim t) (or_str (take 60 c) (js ''Untitled''))"

text \<open>
  The remote side of the editor: the object store and the \<open>blogs\<close> table.  The table's
  answers are its own: the id and time it gives a new row, and whether an insert or an
  update fails.
\<close>

record world =
  store :: storage
  blogs :: "blog_row list"

record blogs_env =
  new_blog_id :: jstring
  now :: nat
  insert_error :: "js_error option"
  update_error :: "js_error option"

text \<open>\<open>createBlogMutation.mutationFn\<close> (lines 116-135).\<close>

definition createBlog :: "env \<Rightarrow> blogs_env \<Rightarrow> editor \<Rightarrow> world \<Rightarrow> (js_error + unit) \<times> world" where
  "createBlog e b s w =
     (case user_id e of
        None \<Rightarrow> (Inl (Error (js ''Not authenticated'')), w)
      | Some uid \<Rightarrow>
          if trim (content s) = [] then (Inl (Error (js ''Content is required'')), w)
          else
            (case uploadFiles e (newFiles s) (store w) of
               (Inl err, st') \<Rightarrow> (Inl err, w\<lparr>store := st'\<rparr>)
             | (Inr uploadedMedia, st') \<Rightarrow>
                 let excerpt = excerpt_of (content s);
                     row = \<lparr>blog_id = new_blog_id b,
                            blog_title = title_of (title s) (content s),
                            blog_content = content s,
                            blog_excerpt = Some excerpt,
                            blog_media = media_json uploadedMedia,
                            blog_is_published = publish s,
                            blog_created_at = now b,
                            blog_author_id = Some uid\<rparr>
                 in (case insert_error b of
                       Some err \<Rightarrow> (Inl err, w\<lparr>store := st'\<rparr>)
                     | None \<Rightarrow> (Inr (), w\<lparr>store := st', blogs := blogs w @ [row]\<rparr>))))"

text \<open>\<open>updateBlogMutation.mutationFn\<close> (lines 145-168): the update writes the payload's
  five columns into every row whose id is the edited blog's.\<close>

definition updateBlog :: "env \<Rightarrow> blogs_env \<Rightarrow> editor \<Rightarrow> world \<Rightarrow> (js_error + unit) \<times> world" where
  "updateBlog e b s w =
     (case editingBlog s of
        None \<Rightarrow> (Inl (Error (js ''No blog selected'')), w)
      | Some editing \<Rightarrow>
          if trim (content s) = [] then (Inl (Error (js ''Content is required'')), w)
          else
            (case uploadFiles e (newFiles s) (store w) of
               (Inl err, st') \<Rightarrow> (Inl err, w\<lparr>store := st'\<rparr>)
             | (Inr uploadedMedia, st') \<Rightarrow>
                 let finalMedia = existingMedia s @ uploadedMedia;
                     excerpt = excerpt_of (content s);
                     upd = (\<lambda>r. if blog_id r = blog_id editing
                                then r\<lparr>blog_title := title_of (title s) (content s),
                                       blog_content := content s,
                                       blog_excerpt := Some excerpt,
                                       blog_media := media_json finalMedia,
                                       blog_is_published := publish s\<rparr>
                                else r)
                 in (case update_error b of
                       Some err \<Rightarrow> (Inl err, w\<lparr>store := st'\<rparr>)
                     | None \<Rightarrow> (Inr (), w\<lparr>store := st', blogs := map upd (blogs w)\<rparr>))))"

text \<open>An editor, a world and table answers for the examples.\<close>

definition demo_blogs_env :: blogs_env where
  "demo_blogs_env = \<lparr>new_blog_id = js ''b2'', now = 7, insert_error = None, update_error = None\<rparr>"

definition old_row :: blog_row where
  "old_row = \<lparr>blog_id = js ''b1'', blog_title = js ''Old'', blog_content = js ''old text'',
     blog_excerpt = None, blog_media = Null, blog_is_published = False, blog_created_at = 3,
     blog_author_id = Some (js ''u1'')\<rparr>"

definition demo_world :: world where
  "demo_world = \<lparr>store = empty_storage, blogs = [old_row]\<rparr>"

definition other_row :: blog_row where
  "other_row = \<lparr>blog_id = js ''b3'', blog_title = js ''Other'', blog_content = js ''other text'',
     blog_excerpt = Some (js ''other text''), blog_media = Arr [], blog_is_published = True,
     blog_created_at = 5, blog_author_id = Some (js ''u1'')\<rparr>"

definition demo_editor :: editor where
  "demo_editor = initial_editor\<lparr>title := js '' Hi '', content := js ''hello'', newFiles := [file_a]\<rparr>"

definition demo_world2 :: world where
  "demo_world2 = \<lparr>store = empty_storage, blogs = [old_row, other_row]\<rparr>"

section \<open>Checkout: cart lines, the total and the three writes\<close>

text \<open>
  \<open>Checkout\<close> (the second component of \<open>Blog.tsx\<close>).  A price is a number as the
  client receives it.  A column that can be \<open>null\<close> is an \<open>option\<close>; the quantity
  is the table's integer column, whose values are doubles exactly.
\<close>

record product =
  product_name :: "jstring option"
  product_price :: "number option"

record cart_item =
  cart_user_id :: jstring
  product_id :: jstring
  quantity :: int
  products :: "product option"

text \<open>\<open>x || d\<close> on a number that may be missing: \<open>null\<close>, \<open>undefined\<close>, \<open>0\<close> and
  \<open>NaN\<close> are falsy; on a string that may be missing: \<open>null\<close>, \<open>undefined\<close> and the
  empty string.\<close>

definition num_or :: "number option \<Rightarrow> number \<Rightarrow> number" where
  "num_or x d = (case x of None \<Rightarrow> d | Some v \<Rightarrow> if v = Fin 0 \<or> v = NaN then d else v)"

definition opt_str_or :: "jstring option \<Rightarrow> jstring \<Rightarrow> jstring" where
  "opt_str_or x d = (case x of None \<Rightarrow> d | Some v \<Rightarrow> if v = [] then d else v)"

text \<open>\<open>item.products?.price\<close> and \<open>item.products?.name\<close>: \<open>undefined\<close> when the joined
  product is missing.\<close>

definition price_of :: "cart_item \<Rightarrow> number option" where
  "price_of item = (case products item of None \<Rightarrow> None | Some p \<Rightarrow> product_price p)"

definition name_of :: "cart_item \<Rightarrow> jstring option" where
  "name_of item = (case products item of None \<Rightarrow> None | Some p \<Rightarrow> product_name p)"

text \<open>The unit price of a line, \<^verbatim>\<open>(item.products?.price || 0)\<close>, and lines 229-232:
  \<^verbatim>\<open>cartItems.reduce((sum, item) => sum + (item.products?.price || 0) * item.quantity, 0)\<close>.\<close>

definition unit_price :: "cart_item \<Rightarrow> number" where
  "unit_price item = num_or (price_of item) (Fin 0)"

definition checkout_total :: "cart_item list \<Rightarrow> number" where
  "checkout_total cartItems =
     foldl (\<lambda>sum item. js_add sum (js_mul (unit_price item) (Fin (of_int (quantity item)))))
       (Fin 0) cartItems"

text \<open>For stating properties: the amount of one line, \<open>unit price * quantity\<close> as the
  program computes it.\<close>

definition line_amount :: "cart_item \<Rightarrow> number" where
  "line_amount item = js_mul (unit_price item) (Fin (of_int (quantity item)))"

record order_row =
  order_id :: jstring
  order_user_id :: jstring
  total_amount :: number
  payment_status :: jstring
  delivery_status :: jstring

record order_item_row =
  oi_order_id :: jstring
  oi_product_id :: jstring
  oi_product_name :: jstring
  oi_quantity :: int
  oi_price :: number

text \<open>Lines 249-255: the order item written for a cart line.\<close>

definition order_item_of :: "jstring \<Rightarrow> cart_item \<Rightarrow> order_item_row" where
  "order_item_of oid item =
     \<lparr>oi_order_id = oid,
      oi_product_id = product_id item,
      oi_product_name = opt_str_or (name_of item) [],
      oi_quantity = quantity item,
      oi_price = unit_price item\<rparr>"

text \<open>
  The remote tables the checkout writes, with the log of the calls made.  Each call is
  answered by the remote side: \<open>order_error\<close>, \<open>items_error\<close> and \<open>clear_error\<close> are
  the errors it answers with (\<open>None\<close>: the call succeeds), \<open>new_order_id\<close> the id it
  gives the new order.  A call that fails changes no table.
\<close>

datatype remote_call = InsertOrder | InsertOrderItems | ClearCart

record shop =
  orders :: "order_row list"
  order_items :: "order_item_row list"
  cart_items :: "cart_item list"
  calls :: "remote_call list"

record shop_env =
  new_order_id :: jstring
  order_error :: "js_error option"
  items_error :: "js_error option"
  clear_error :: "js_error option"

text \<open>The order row of lines 237-242.\<close>

definition new_order :: "shop_env \<Rightarrow> jstring \<Rightarrow> number \<Rightarrow> order_row" where
  "new_order e uid amount =
     \<lparr>order_id = new_order_id e, order_user_id = uid, total_amount = amount,
      payment_status = js ''completed'', delivery_status = js ''processing''\<rparr>"

text \<open>\<open>createOrderMutation.mutationFn\<close> (lines 226-272): \<open>user\<close> is the signed-in user's
  id, \<open>cartItems\<close> the cart query's cached result.\<close>

definition createOrder ::
  "shop_env \<Rightarrow> jstring option \<Rightarrow> cart_item list option \<Rightarrow> shop \<Rightarrow> (js_error + number) \<times> shop" where
  "createOrder e user cartItems d =
     (case (user, cartItems) of
        (Some uid, Some items) \<Rightarrow>
          let total = checkout_total items;
              d0 = d\<lparr>calls := calls d @ [InsertOrder]\<rparr>
          in (case order_error e of
                Some orderError \<Rightarrow> (Inl orderError, d0)
              | None \<Rightarrow>
                  let order = new_order e uid total;
                      d1 = d0\<lparr>orders := orders d0 @ [order],
                              calls := calls d0 @ [InsertOrderItems]\<rparr>;
                      orderItems = map (order_item_of (order_id order)) items
                  in (case items_error e of
                        Some itemsError \<Rightarrow> (Inl itemsError, d1)
                      | None \<Rightarrow>
                          let d2 = d1\<lparr>order_items := order_items d1 @ orderItems,
                                      calls := calls d1 @ [ClearCart]\<rparr>
                          in (case clear_error e of
                                Some clearError \<Rightarrow> (Inl clearError, d2)
                              | None \<Rightarrow>
                                  (Inr total,
                                   d2\<lparr>cart_items :=
                                        filter (\<lambda>c. cart_user_id c \<noteq> uid) (cart_items d2)\<rparr>))))
      | _ \<Rightarrow> (Inl (Error (js ''Invalid state'')), d))"

text \<open>The cart of the spec's example, \<open>[{price: 10, qty: 2}, {price: 5, qty: 1}]\<close>, a line
  whose product is missing, and a shop for the examples.\<close>

definition line_10x2 :: cart_item where
  "line_10x2 = \<lparr>cart_user_id = js ''u1'', product_id = js ''p1'', quantity = 2,
                 products = Some \<lparr>product_name = Some (js ''Oil''), product_price = Some (Fin 10)\<rparr>\<rparr>"

definition line_5x1 :: cart_item where
  "line_5x1 = \<lparr>cart_user_id = js ''u1'', product_id = js ''p2'', quantity = 1,
                products = Some \<lparr>product_name = Some (js ''Tea''), product_price = Some (Fin 5)\<rparr>\<rparr>"

definition line_missing :: cart_item where
  "line_missing = \<lparr>cart_user_id = js ''u1'', product_id = js ''p9'', quantity = 3, products = None\<rparr>"

definition other_users_line :: cart_item where
  "other_users_line = \<lparr>cart_user_id = js ''u2'', product_id = js ''p1'', quantity = 1,
                        products = Some \<lparr>product_name = Some (js ''Oil''), product_price = Some (Fin 10)\<rparr>\<rparr>"

definition demo_shop :: shop where
  "demo_shop = \<lparr>orders = [], order_items = [],
                 cart_items = [line_10x2, other_users_line, line_5x1], calls = []\<rparr>"

definition all_ok :: shop_env where
  "all_ok = \<lparr>new_order_id = js ''o1'', order_error = None, items_error = None, clear_error = None\<rparr>"

definition order_fails :: shop_env where
  "order_fails = all_ok\<lparr>order_error := Some (StoreError (js ''orders down''))\<rparr>"

definition items_fail :: shop_env where
  "items_fail = all_ok\<lparr>items_error := Some (StoreError (js ''items down''))\<rparr>"

definition clear_fails :: shop_env where
  "clear_fails = all_ok\<lparr>clear_error := Some (StoreError (js ''cart down''))\<rparr>"

text \<open>Three cart lines of quantity 1 whose prices are the doubles nearest to 0.1, 0.2 and
  0.3 (what \<open>JSON.parse\<close> gives for these texts).\<close>

definition line_01 :: cart_item where
  "line_01 = \<lparr>cart_user_id = js ''u1'', product_id = js ''p1'', quantity = 1,
               products = Some \<lparr>product_name = Some (js ''a''), product_price = Some (rd (1 / 10))\<rparr>\<rparr>"

definition line_02 :: cart_item where
  "line_02 = \<lparr>cart_user_id = js ''u1'', product_id = js ''p2'', quantity = 1,
               products = Some \<lparr>product_name = Some (js ''b''), product_price = Some (rd (1 / 5))\<rparr>\<rparr>"

definition line_03 :: cart_item where
  "line_03 = \<lparr>cart_user_id = js ''u1'', product_id = js ''p3'', quantity = 1,
               products = Some \<lparr>product_name = Some (js ''c''), product_price = Some (rd (3 / 10))\<rparr>\<rparr>"


section \<open>Numbers as text\<close>

text \<open>The decimal digits of a natural number, and \<open>String(n)\<close> for an integer \<open>n\<close>
  (below \<open>10^21\<close>, where JavaScript prints every digit).\<close>

definition digit :: "nat \<Rightarrow> char16" where
  "digit d = of_nat (48 + d)"

function digits_of :: "nat \<Rightarrow> jstring" where
  "digits_of n = (if n < 10 then [digit n] else digits_of (n div 10) @ [digit (n mod 10)])"
  by pat_completeness auto
termination
  by (relation "measure (\<lambda>n. n)") auto

declare digits_of.simps [simp del]




section \<open>Reading blogs: the public query and the media parser\<close>

text \<open>
  \<open>Blog.tsx\<close>, lines 19-26:
  \<^verbatim>\<open>supabase.from("blogs").select("*").eq("is_published", true).order("created_at", { ascending: false })\<close>
  and \<open>if (error) throw error; return data\<close>.  The table answers with an error or with
  its rows that pass the equality filter, latest first.
\<close>

definition order_desc :: "blog_row list \<Rightarrow> blog_row list" where
  "order_desc rows = rev (sort_key blog_created_at rows)"

definition public_blogs_query :: "js_error option \<Rightarrow> blog_row list \<Rightarrow> js_error + blog_row list" where
  "public_blogs_query error table =
     (case error of
        Some err \<Rightarrow> Inl err
      | None \<Rightarrow> Inr (order_desc (filter (\<lambda>b. blog_is_published b = True) table)))"

text \<open>The page shows one card per row of the query's data (lines 59-62), and none while
  there is no data.\<close>

definition shown_blogs :: "js_error + blog_row list \<Rightarrow> blog_row list" where
  "shown_blogs result = (case result of Inl err \<Rightarrow> [] | Inr data \<Rightarrow> data)"

text \<open>
  The media parser (\<open>Blog.tsx\<close> lines 66-76, \<open>BlogsManagement.tsx\<close> lines 66-73):
  \<^verbatim>\<open>let media = [];
  try { if (Array.isArray(cell)) media = cell;
        else if (typeof cell === "string") media = JSON.parse(cell); }
  catch { media = []; }\<close>
  \<open>JSON.parse\<close> is the runtime's decoder; the parser takes it as the parameter
  \<open>JSON_parse\<close>, which answers with the decoded value or throws.
\<close>

definition media_parser :: "(jstring \<Rightarrow> js_error + jsval) \<Rightarrow> jsval \<Rightarrow> js_error + jsval" where
  "media_parser JSON_parse cell =
     (case (case cell of
              Arr xs \<Rightarrow> Inr (Arr xs)
            | Str s \<Rightarrow> JSON_parse s
            | _ \<Rightarrow> Inr (Arr []))
      of Inl err \<Rightarrow> Inr (Arr [])
       | Inr media \<Rightarrow> Inr media)"

definition isArray :: "jsval \<Rightarrow> bool" where
  "isArray v = (case v of Arr xs \<Rightarrow> True | _ \<Rightarrow> False)"

text \<open>\<open>m?.type\<close>: the property of an object, \<open>undefined\<close> when the object does not have
  it or the value is not an object.\<close>

definition property :: "jstring \<Rightarrow> jsval \<Rightarrow> jsval" where
  "property k m =
     (case m of
        Obj kvs \<Rightarrow> (case map_of kvs k of Some v \<Rightarrow> v | None \<Rightarrow> Undefined)
      | _ \<Rightarrow> Undefined)"

text \<open>\<open>Blog.tsx\<close> lines 66-78, what a card does with the cell: parse it, then
  \<^verbatim>\<open>media.filter((m) => m?.type === "image")\<close>.  Only an array has \<open>filter\<close>; on
  any other value the call throws a \<open>TypeError\<close>.\<close>

definition card_images :: "(jstring \<Rightarrow> js_error + jsval) \<Rightarrow> jsval \<Rightarrow> js_error + jsval list" where
  "card_images JSON_parse cell =
     (case media_parser JSON_parse cell of
        Inl err \<Rightarrow> Inl err
      | Inr media \<Rightarrow>
          (case media of
             Arr xs \<Rightarrow> Inr (filter (\<lambda>m. property (js ''type'') m = Str (js ''image'')) xs)
           | _ \<Rightarrow> Inl TypeError))"

text \<open>A decoder for the examples: it answers as \<open>JSON.parse\<close> does on the four texts
  \<open>null\<close>, \<open>{}\<close>, \<open>[]\<close> and \<open>[{"type":"image","url":"u"}]\<close>, and throws on the
  text \<open>{oops\<close>, which is not JSON; the examples use no other text.\<close>

definition demo_decoder :: "jstring \<Rightarrow> js_error + jsval" where
  "demo_decoder s =
     (if s = js ''null'' then Inr Null
      else if s = js ''{}'' then Inr (Obj [])
      else if s = js ''[]'' then Inr (Arr [])
      else if s = js ''[{\"type\":\"image\",\"url\":\"u\"}]''
        then Inr (Arr [Obj [(js ''type'', Str (js ''image'')), (js ''url'', Str (js ''u''))]])
      else Inl SyntaxError)"

definition newer_row :: blog_row where
  "newer_row = \<lparr>blog_id = js ''b4'', blog_title = js ''Newer'', blog_content = js ''newer text'',
     blog_excerpt = None, blog_media = Str (js ''[]''), blog_is_published = True,
     blog_created_at = 9, blog_author_id = Some (js ''u1'')\<rparr>"

section \<open>The order message and the deep link\<close>







text \<open>
  \<open>encodeURIComponent\<close> (ECMAScript \<open>Encode\<close> with the unreserved set): a code unit
  among \<open>A-Z a-z 0-9 - _ . ! ~ * ' ( )\<close> stays; any other character is written as the
  bytes of its UTF-8 form, each as \<open>%\<close> and two upper-case hexadecimal digits; a
  surrogate that is not part of a pair throws a \<open>URIError\<close>.
\<close>

definition unreserved :: "char16 \<Rightarrow> bool" where
  "unreserved c \<longleftrightarrow>
     (0x41 \<le> c \<and> c \<le> 0x5A) \<or> (0x61 \<le> c \<and> c \<le> 0x7A) \<or> (0x30 \<le> c \<and> c \<le> 0x39) \<or>
     c = 0x2D \<or> c = 0x5F \<or> c = 0x2E \<or> c = 0x21 \<or> c = 0x7E \<or> c = 0x2A \<or>
     c = 0x27 \<or> c = 0x28 \<or> c = 0x29"

definition hex_digit :: "nat \<Rightarrow> char16" where
  "hex_digit n = (if n < 10 then of_nat (48 + n) else of_nat (55 + n))"

definition pct :: "nat \<Rightarrow> jstring" where
  "pct b = [0x25, hex_digit (b div 16), hex_digit (b mod 16)]"

definition utf8 :: "nat \<Rightarrow> nat list" where
  "utf8 cp =
     (if cp < 0x80 then [cp]
      else if cp < 0x800 then [0xC0 + cp div 64, 0x80 + cp mod 64]
      else if cp < 0x10000 then [0xE0 + cp div 4096, 0x80 + cp div 64 mod 64, 0x80 + cp mod 64]
      else [0xF0 + cp div 262144, 0x80 + cp div 4096 mod 64, 0x80 + cp div 64 mod 64,
            0x80 + cp mod 64])"

definition is_high_surrogate :: "char16 \<Rightarrow> bool" where
  "is_high_surrogate c \<longleftrightarrow> 0xD800 \<le> c \<and> c \<le> 0xDBFF"

definition is_low_surrogate :: "char16 \<Rightarrow> bool" where
  "is_low_surrogate c \<longleftrightarrow> 0xDC00 \<le> c \<and> c \<le> 0xDFFF"

definition pair_code_point :: "char16 \<Rightarrow> char16 \<Rightarrow> nat" where
  "pair_code_point hi lo = 0x10000 + (unat hi - 0xD800) * 0x400 + (unat lo - 0xDC00)"

fun encodeURIComponent :: "jstring \<Rightarrow> js_error + jstring" where
  "encodeURIComponent [] = Inr []"
| "encodeURIComponent (c # cs) =
     (if unreserved c then
        (case encodeURIComponent cs of Inl err \<Rightarrow> Inl err | Inr r \<Rightarrow> Inr (c # r))
      else if is_low_surrogate c then Inl URIError
      else if is_high_surrogate c then
        (case cs of
           [] \<Rightarrow> Inl URIError
         | d # ds \<Rightarrow>
             if is_low_surrogate d then
               (case encodeURIComponent ds of
                  Inl err \<Rightarrow> Inl err
                | Inr r \<Rightarrow> Inr (concat (map pct (utf8 (pair_code_point c d))) @ r))
             else Inl URIError)
      else
        (case encodeURIComponent cs of
           Inl err \<Rightarrow> Inl err
         | Inr r \<Rightarrow> Inr (concat (map pct (utf8 (unat c))) @ r)))"










chapter \<open>Properties\<close>

section \<open>Classification by declared MIME type\<close>

lemma classify_cases:
  "classify mime = VIDEO \<longleftrightarrow> prefix (js ''video/'') mime"
  "classify mime = AUDIO \<longleftrightarrow> \<not> prefix (js ''video/'') mime \<and> prefix (js ''audio/'') mime"
  "classify mime = IMAGE \<longleftrightarrow> \<not> prefix (js ''video/'') mime \<and> \<not> prefix (js ''audio/'') mime"
  by (simp_all add: classify_def)

section \<open>The upload loop\<close>

lemma enumerate_from_Nil [simp]: "enumerate_from i [] = []"
  by (simp add: enumerate_from_def)

lemma enumerate_from_Cons [simp]: "enumerate_from i (x # xs) = (i, x) # enumerate_from (Suc i) xs"
  by (simp add: enumerate_from_def upt_rec)

lemma length_enumerate_from [simp]: "length (enumerate_from i xs) = length xs"
  by (simp add: enumerate_from_def)

lemma map_snd_enumerate_from [simp]: "map snd (enumerate_from i xs) = xs"
  by (induction xs arbitrary: i) simp_all

lemma upload_loop_Inr:
  "upload_loop e fs i acc st = (Inr items, st') \<Longrightarrow>
     items = acc @ map (media_of e) (enumerate_from i fs) \<and>
     attempts st' = attempts st @ map (ok_call e) (enumerate_from i fs) \<and>
     objects st' = objects st @ map (stored e) (enumerate_from i fs)"
proof (induction fs arbitrary: i acc st)
  case Nil
  then show ?case by simp
next
  case (Cons f fs)
  show ?case
  proof (cases "upload_error e st (upload_path e i f) f")
    case None
    let ?st = "st\<lparr>objects := objects st @ [(upload_path e i f, f)],
                    attempts := attempts st @ [(upload_path e i f, f, None)]\<rparr>"
    from Cons.prems None
    have "upload_loop e fs (Suc i) (acc @ [media_of e (i, f)]) ?st = (Inr items, st')"
      by (simp add: storage_upload_def media_of_def Let_def)
    from Cons.IH [OF this] show ?thesis
      by (simp add: ok_call_def stored_def)
  next
    case (Some err)
    with Cons.prems show ?thesis
      by (simp add: storage_upload_def Let_def)
  qed
qed

lemma upload_loop_Inl:
  "upload_loop e fs i acc st = (Inl err, st') \<Longrightarrow>
     \<exists>k < length fs.
       attempts st' = attempts st @ map (ok_call e) (enumerate_from i (take k fs))
                        @ [(upload_path e (i + k) (fs ! k), fs ! k, Some err)] \<and>
       objects st' = objects st @ map (stored e) (enumerate_from i (take k fs))"
proof (induction fs arbitrary: i acc st)
  case Nil
  then show ?case by simp
next
  case (Cons f fs)
  show ?case
  proof (cases "upload_error e st (upload_path e i f) f")
    case None
    let ?st = "st\<lparr>objects := objects st @ [(upload_path e i f, f)],
                    attempts := attempts st @ [(upload_path e i f, f, None)]\<rparr>"
    from Cons.prems None
    have "upload_loop e fs (Suc i) (acc @ [media_of e (i, f)]) ?st = (Inl err, st')"
      by (simp add: storage_upload_def media_of_def Let_def)
    from Cons.IH [OF this] obtain k where k: "k < length fs"
      and a: "attempts st' = attempts ?st @ map (ok_call e) (enumerate_from (Suc i) (take k fs))
                        @ [(upload_path e (Suc i + k) (fs ! k), fs ! k, Some err)]"
      and b: "objects st' = objects ?st @ map (stored e) (enumerate_from (Suc i) (take k fs))"
      by blast
    show ?thesis
    proof (intro exI [of _ "Suc k"] conjI)
      show "Suc k < length (f # fs)" using k by simp
      show "attempts st' = attempts st @ map (ok_call e) (enumerate_from i (take (Suc k) (f # fs)))
              @ [(upload_path e (i + Suc k) ((f # fs) ! Suc k), (f # fs) ! Suc k, Some err)]"
        using a by (simp add: ok_call_def)
      show "objects st' = objects st @ map (stored e) (enumerate_from i (take (Suc k) (f # fs)))"
        using b by (simp add: stored_def)
    qed
  next
    case (Some err')
    with Cons.prems have "err' = err" "st' = st\<lparr>attempts := attempts st @ [(upload_path e i f, f, Some err')]\<rparr>"
      by (auto simp add: storage_upload_def Let_def)
    then show ?thesis
      by (intro exI [of _ 0]) simp
  qed
qed

lemma audio_not_video: "prefix (js ''audio/'') mime \<Longrightarrow> \<not> prefix (js ''video/'') mime"
  by (auto simp add: js_def prefix_def)

lemma uploadFiles_types:
  "uploadFiles e files st = (Inr items, st') \<Longrightarrow>
     map item_type items = map (\<lambda>f. classify (file_type f)) files"
proof (cases "files = []")
  case True
  assume "uploadFiles e files st = (Inr items, st')"
  with True show ?thesis by (simp add: uploadFiles_def)
next
  case False
  assume "uploadFiles e files st = (Inr items, st')"
  with False have "upload_loop e files 0 [] st = (Inr items, st')"
    by (simp add: uploadFiles_def)
  from upload_loop_Inr [OF this]
  have "items = map (media_of e) (enumerate_from 0 files)" by simp
  then have "map item_type items = map (\<lambda>p. classify (file_type (snd p))) (enumerate_from 0 files)"
    by (simp add: media_of_def comp_def)
  also have "\<dots> = map (\<lambda>f. classify (file_type f)) (map snd (enumerate_from 0 files))"
    by (simp only: map_map o_def)
  finally show ?thesis by simp
qed

lemma demo_upload_ok:
  "uploadFiles demo_env [file_a, file_c] empty_storage =
     (Inr [\<lparr>item_type = VIDEO, item_url = js ''https://cdn/u1/t.mp4''\<rparr>,
           \<lparr>item_type = IMAGE, item_url = js ''https://cdn/u1/t.c''\<rparr>],
      \<lparr>objects = [(js ''u1/t.mp4'', file_a), (js ''u1/t.c'', file_c)],
       attempts = [(js ''u1/t.mp4'', file_a, None), (js ''u1/t.c'', file_c, None)]\<rparr>)"
  by (simp add: uploadFiles_def demo_env_def empty_storage_def storage_upload_def
      upload_path_def ext_of_def classify_def js_def Let_def file_a_def file_c_def)

lemma demo_upload_fails:
  "uploadFiles demo_env [file_a, file_b, file_c] empty_storage =
     (Inl (StoreError (js ''quota'')),
      \<lparr>objects = [(js ''u1/t.mp4'', file_a)],
       attempts = [(js ''u1/t.mp4'', file_a, None),
                   (js ''u1/t.png'', file_b, Some (StoreError (js ''quota'')))]\<rparr>)"
  by (simp add: uploadFiles_def demo_env_def empty_storage_def storage_upload_def
      upload_path_def ext_of_def classify_def js_def Let_def file_a_def file_b_def file_c_def)

text \<open>
  C7.  The media type of an uploaded file is a function of its declared MIME type alone:
  a type that starts with \<open>video/\<close> gives video, one that starts with \<open>audio/\<close>
  gives audio, every other type, the empty one included, gives image; and the items
  \<open>uploadFiles\<close> returns carry exactly these types, file by file.
\<close>

theorem classify_by_declared_mime:
  "(prefix (js ''video/'') mime \<longrightarrow> classify mime = VIDEO) \<and>
   (prefix (js ''audio/'') mime \<longrightarrow> classify mime = AUDIO) \<and>
   (\<not> prefix (js ''video/'') mime \<and> \<not> prefix (js ''audio/'') mime \<longrightarrow> classify mime = IMAGE) \<and>
   classify [] = IMAGE \<and>
   (uploadFiles e files st = (Inr items, st') \<longrightarrow>
      map item_type items = map (\<lambda>f. classify (file_type f)) files)"
  using audio_not_video [of mime] uploadFiles_types [of e files st items st']
  by (simp add: classify_def js_def)

theorem classify_by_declared_mime_witness:
  "classify (js ''video/mp4'') = VIDEO \<and>
   classify (js ''audio/ogg'') = AUDIO \<and>
   classify (js ''application/pdf'') = IMAGE \<and>
   classify (js ''Video/mp4'') = IMAGE \<and>
   map item_type [\<lparr>item_type = VIDEO, item_url = js ''https://cdn/u1/t.mp4''\<rparr>,
                  \<lparr>item_type = IMAGE, item_url = js ''https://cdn/u1/t.c''\<rparr>]
     = map (\<lambda>f. classify (file_type f)) [file_a, file_c]"
proof -
  have v: "prefix (js ''video/'') (js ''video/mp4'')"
    and a: "prefix (js ''audio/'') (js ''audio/ogg'')"
    and p: "\<not> prefix (js ''video/'') (js ''application/pdf'') \<and>
            \<not> prefix (js ''audio/'') (js ''application/pdf'')"
    and c: "\<not> prefix (js ''video/'') (js ''Video/mp4'') \<and>
            \<not> prefix (js ''audio/'') (js ''Video/mp4'')"
    by (simp_all add: js_def)
  from v classify_by_declared_mime [of "js ''video/mp4''"]
  have 1: "classify (js ''video/mp4'') = VIDEO" by blast
  from a classify_by_declared_mime [of "js ''audio/ogg''"]
  have 2: "classify (js ''audio/ogg'') = AUDIO" by blast
  from p classify_by_declared_mime [of "js ''application/pdf''"]
  have 3: "classify (js ''application/pdf'') = IMAGE" by blast
  from c classify_by_declared_mime [of "js ''Video/mp4''"]
  have 4: "classify (js ''Video/mp4'') = IMAGE" by blast
  from demo_upload_ok classify_by_declared_mime [of _ demo_env "[file_a, file_c]" empty_storage]
  have 5: "map item_type [\<lparr>item_type = VIDEO, item_url = js ''https://cdn/u1/t.mp4''\<rparr>,
                  \<lparr>item_type = IMAGE, item_url = js ''https://cdn/u1/t.c''\<rparr>]
     = map (\<lambda>f. classify (file_type f)) [file_a, file_c]" by blast
  from 1 2 3 4 5 show ?thesis by blast
qed

text \<open>
  C6.  \<open>uploadFiles\<close> calls the store once per file, in the order of the selection.
  When every call succeeds the result is one media item per file, in that order.  When
  a call fails the result is the store's error as the store gave it, no list at all; the
  store has seen the files up to the failing one, each once, and none after it.
\<close>

theorem uploadFiles_sequential_abort:
  "(uploadFiles e files st = (Inr items, st') \<longrightarrow>
      length items = length files \<and>
      items = map (media_of e) (enumerate_from 0 files) \<and>
      attempts st' = attempts st @ map (ok_call e) (enumerate_from 0 files)) \<and>
   (uploadFiles e files st = (Inl err, st'') \<longrightarrow>
      (\<exists>k<length files.
         attempts st'' = attempts st @ map (ok_call e) (enumerate_from 0 (take k files))
                           @ [(upload_path e k (files ! k), files ! k, Some err)] \<and>
         objects st'' = objects st @ map (stored e) (enumerate_from 0 (take k files))))"
proof (intro conjI impI)
  assume ok: "uploadFiles e files st = (Inr items, st')"
  have "items = map (media_of e) (enumerate_from 0 files) \<and>
        attempts st' = attempts st @ map (ok_call e) (enumerate_from 0 files)"
  proof (cases "files = []")
    case True
    with ok show ?thesis by (simp add: uploadFiles_def)
  next
    case False
    with ok have "upload_loop e files 0 [] st = (Inr items, st')"
      by (simp add: uploadFiles_def)
    from upload_loop_Inr [OF this] show ?thesis by simp
  qed
  then show "length items = length files"
    and "items = map (media_of e) (enumerate_from 0 files)"
    and "attempts st' = attempts st @ map (ok_call e) (enumerate_from 0 files)"
    by simp_all
next
  assume bad: "uploadFiles e files st = (Inl err, st'')"
  then have "files \<noteq> []" by (auto simp add: uploadFiles_def)
  with bad have "upload_loop e files 0 [] st = (Inl err, st'')"
    by (simp add: uploadFiles_def)
  from upload_loop_Inl [OF this]
  show "\<exists>k<length files.
         attempts st'' = attempts st @ map (ok_call e) (enumerate_from 0 (take k files))
                           @ [(upload_path e k (files ! k), files ! k, Some err)] \<and>
         objects st'' = objects st @ map (stored e) (enumerate_from 0 (take k files))"
    by simp
qed

theorem uploadFiles_sequential_abort_witness:
  "uploadFiles demo_env [file_a, file_c] empty_storage =
     (Inr [\<lparr>item_type = VIDEO, item_url = js ''https://cdn/u1/t.mp4''\<rparr>,
           \<lparr>item_type = IMAGE, item_url = js ''https://cdn/u1/t.c''\<rparr>],
      \<lparr>objects = [(js ''u1/t.mp4'', file_a), (js ''u1/t.c'', file_c)],
       attempts = [(js ''u1/t.mp4'', file_a, None), (js ''u1/t.c'', file_c, None)]\<rparr>) \<and>
   [\<lparr>item_type = VIDEO, item_url = js ''https://cdn/u1/t.mp4''\<rparr>,
    \<lparr>item_type = IMAGE, item_url = js ''https://cdn/u1/t.c''\<rparr>]
     = map (media_of demo_env) (enumerate_from 0 [file_a, file_c]) \<and>
   uploadFiles demo_env [file_a, file_b, file_c] empty_storage =
     (Inl (StoreError (js ''quota'')),
      \<lparr>objects = [(js ''u1/t.mp4'', file_a)],
       attempts = [(js ''u1/t.mp4'', file_a, None),
                   (js ''u1/t.png'', file_b, Some (StoreError (js ''quota'')))]\<rparr>) \<and>
   (\<exists>k<length [file_a, file_b, file_c].
      [(js ''u1/t.mp4'', file_a, None), (js ''u1/t.png'', file_b, Some (StoreError (js ''quota'')))]
        = attempts empty_storage
            @ map (ok_call demo_env) (enumerate_from 0 (take k [file_a, file_b, file_c]))
            @ [(upload_path demo_env k ([file_a, file_b, file_c] ! k), [file_a, file_b, file_c] ! k,
                Some (StoreError (js ''quota'')))])"
proof -
  note ok = demo_upload_ok and bad = demo_upload_fails
  from ok uploadFiles_sequential_abort [of demo_env "[file_a, file_c]" empty_storage]
  have 1: "[\<lparr>item_type = VIDEO, item_url = js ''https://cdn/u1/t.mp4''\<rparr>,
            \<lparr>item_type = IMAGE, item_url = js ''https://cdn/u1/t.c''\<rparr>]
     = map (media_of demo_env) (enumerate_from 0 [file_a, file_c])"
    by blast
  from bad uploadFiles_sequential_abort [of demo_env "[file_a, file_b, file_c]" empty_storage]
  have "\<exists>k<length [file_a, file_b, file_c].
      attempts \<lparr>objects = [(js ''u1/t.mp4'', file_a)],
       attempts = [(js ''u1/t.mp4'', file_a, None),
                   (js ''u1/t.png'', file_b, Some (StoreError (js ''quota'')))]\<rparr>
        = attempts empty_storage
            @ map (ok_call demo_env) (enumerate_from 0 (take k [file_a, file_b, file_c]))
            @ [(upload_path demo_env k ([file_a, file_b, file_c] ! k), [file_a, file_b, file_c] ! k,
                Some (StoreError (js ''quota'')))]"
    by blast
  then have 2: "\<exists>k<length [file_a, file_b, file_c].
      [(js ''u1/t.mp4'', file_a, None), (js ''u1/t.png'', file_b, Some (StoreError (js ''quota'')))]
        = attempts empty_storage
            @ map (ok_call demo_env) (enumerate_from 0 (take k [file_a, file_b, file_c]))
            @ [(upload_path demo_env k ([file_a, file_b, file_c] ! k), [file_a, file_b, file_c] ! k,
                Some (StoreError (js ''quota'')))]"
    by simp
  from ok bad 1 2 show ?thesis by blast
qed

section \<open>The image cap of the file selection\<close>

lemma select_loop_eq:
  "select_loop c files allowed rej =
     (allowed @ cap_images (4 - (c + length (filter is_image_file allowed))) files,
      rej + (length (filter is_image_file files) - (4 - (c + length (filter is_image_file allowed)))))"
proof (induction files arbitrary: allowed rej)
  case Nil
  then show ?case by simp
next
  case (Cons f fs)
  show ?case
  proof (cases "is_image_file f")
    case False
    then show ?thesis by (simp add: Cons.IH)
  next
    case True
    show ?thesis
    proof (cases "c + length (filter is_image_file allowed) < 4")
      case less: True
      then obtain m where m: "4 - (c + length (filter is_image_file allowed)) = Suc m"
        by (cases "4 - (c + length (filter is_image_file allowed))") auto
      then have "4 - (c + length (filter is_image_file (allowed @ [f]))) = m"
        using True by simp
      with True less m show ?thesis by (simp add: Cons.IH)
    next
      case False
      then have "4 - (c + length (filter is_image_file allowed)) = 0" by simp
      with True False show ?thesis by (simp add: Cons.IH)
    qed
  qed
qed

lemma imgs_cap_images:
  "length (filter is_image_file (cap_images n fs)) = min n (length (filter is_image_file fs))"
  by (induction n fs rule: cap_images.induct) (auto split: nat.splits)

lemma filter_image_cap_images:
  "filter is_image_file (cap_images n fs) = take n (filter is_image_file fs)"
  by (induction n fs rule: cap_images.induct) (auto split: nat.splits)

lemma filter_other_cap_images:
  "filter (\<lambda>f. \<not> is_image_file f) (cap_images n fs) = filter (\<lambda>f. \<not> is_image_file f) fs"
  by (induction n fs rule: cap_images.induct) (auto split: nat.splits)

lemma handleFileChange_eq:
  "handleFileChange s files =
     s\<lparr>toasts := toasts s @
         (if 4 - image_count s < length (filter is_image_file files)
          then [js ''Maximum 4 images allowed''] else []),
       newFiles := newFiles s @ cap_images (4 - image_count s) files\<rparr>"
  by (cases "files = []")
    (auto simp add: handleFileChange_def select_loop_eq image_count_def Let_def)

lemma demo_three_plus_two:
  "handleFileChange (initial_editor\<lparr>existingMedia := [saved_image, saved_image, saved_image]\<rparr>) [png, jpg]
     = initial_editor\<lparr>existingMedia := [saved_image, saved_image, saved_image],
         newFiles := [png], toasts := [js ''Maximum 4 images allowed'']\<rparr>"
  by (simp add: handleFileChange_def initial_editor_def is_image_item_def is_image_file_def
      saved_image_def png_def jpg_def js_def Let_def)

text \<open>
  The claim C2 as it is written says the count never exceeds four.  An editor that opens
  a post with five saved media items of type image shows five, whatever is selected.
\<close>

theorem image_count_above_four_counterexample:
  "\<not> image_count (handleFileChange
        (initial_editor\<lparr>existingMedia :=
           [saved_image, saved_image, saved_image, saved_image, saved_image]\<rparr>) [png]) \<le> 4"
  by (simp add: handleFileChange_def image_count_def initial_editor_def is_image_item_def
      is_image_file_def saved_image_def png_def js_def Let_def)

text \<open>
  Such a post comes out of the editor itself: a file whose MIME type is not \<open>image/\<close>
  is never capped, and \<open>uploadFiles\<close> gives it the type image by default.  Four images
  and one PDF selected on the empty form are all staged, and uploading them gives five
  media items of type image.
\<close>

lemma five_saved_images_from_one_selection:
  "newFiles (handleFileChange initial_editor [png, png, png, png, pdf]) = [png, png, png, png, pdf] \<and>
   toasts (handleFileChange initial_editor [png, png, png, png, pdf]) = [] \<and>
   map (\<lambda>f. classify (file_type f)) [png, png, png, png, pdf] = [IMAGE, IMAGE, IMAGE, IMAGE, IMAGE]"
  by (simp add: handleFileChange_def initial_editor_def is_image_item_def is_image_file_def
      png_def pdf_def js_def Let_def classify_def)

text \<open>
  C2, amended.  A file-selection event adds to the staged files the selection without
  the images that do not fit: with \<open>room = 4 - count\<close> (the count of saved image items
  plus staged image files before the event), the first \<open>room\<close> selected images are
  accepted and the later ones dropped, every file that is not an image is accepted, all
  in the order of the selection.  So the count grows by \<open>min room k\<close> for \<open>k\<close> selected
  images, and a count of at most four stays at most four.  The images dropped are the
  \<open>k - room\<close> others; one notice is shown when an image was dropped, none otherwise.
\<close>

theorem handleFileChange_image_cap:
  "select_loop (image_count s) files [] 0
     = (cap_images (4 - image_count s) files,
        length (filter is_image_file files) - (4 - image_count s)) \<and>
   newFiles (handleFileChange s files) = newFiles s @ cap_images (4 - image_count s) files \<and>
   filter is_image_file (cap_images (4 - image_count s) files)
     = take (4 - image_count s) (filter is_image_file files) \<and>
   filter (\<lambda>f. \<not> is_image_file f) (cap_images (4 - image_count s) files)
     = filter (\<lambda>f. \<not> is_image_file f) files \<and>
   image_count (handleFileChange s files)
     = image_count s + min (4 - image_count s) (length (filter is_image_file files)) \<and>
   (image_count s \<le> 4 \<longrightarrow> image_count (handleFileChange s files) \<le> 4) \<and>
   toasts (handleFileChange s files)
     = toasts s @ (if 4 - image_count s < length (filter is_image_file files)
                   then [js ''Maximum 4 images allowed''] else []) \<and>
   existingMedia (handleFileChange s files) = existingMedia s"
proof -
  have count: "image_count (handleFileChange s files)
     = image_count s + min (4 - image_count s) (length (filter is_image_file files))"
    by (simp add: handleFileChange_eq image_count_def imgs_cap_images)
  have "image_count s \<le> 4 \<longrightarrow> image_count (handleFileChange s files) \<le> 4"
    unfolding count by auto
  with count show ?thesis
    by (simp add: handleFileChange_eq filter_image_cap_images filter_other_cap_images
        select_loop_eq)
qed

theorem handleFileChange_image_cap_witness:
  "image_count (initial_editor\<lparr>existingMedia := [saved_image, saved_image, saved_image]\<rparr>) \<le> 4 \<and>
   image_count (handleFileChange
      (initial_editor\<lparr>existingMedia := [saved_image, saved_image, saved_image]\<rparr>) [png, jpg]) \<le> 4 \<and>
   select_loop 3 [png, jpg] [] 0 = ([png], 1) \<and>
   newFiles (handleFileChange
      (initial_editor\<lparr>existingMedia := [saved_image, saved_image, saved_image]\<rparr>) [png, jpg]) = [png] \<and>
   toasts (handleFileChange
      (initial_editor\<lparr>existingMedia := [saved_image, saved_image, saved_image]\<rparr>) [png, jpg])
     = [js ''Maximum 4 images allowed'']"
proof -
  have h: "image_count (initial_editor\<lparr>existingMedia := [saved_image, saved_image, saved_image]\<rparr>) \<le> 4"
    by (simp add: image_count_def initial_editor_def is_image_item_def saved_image_def)
  from h handleFileChange_image_cap
    [of "initial_editor\<lparr>existingMedia := [saved_image, saved_image, saved_image]\<rparr>" "[png, jpg]"]
  have "image_count (handleFileChange
      (initial_editor\<lparr>existingMedia := [saved_image, saved_image, saved_image]\<rparr>) [png, jpg]) \<le> 4"
    by blast
  moreover have "select_loop 3 [png, jpg] [] 0 = ([png], 1)"
    by (simp add: is_image_file_def png_def jpg_def js_def)
  ultimately show ?thesis using h by (simp add: demo_three_plus_two)
qed

section \<open>Excerpt and title of a stored post\<close>

lemma createBlog_row:
  "createBlog e b s w = (Inr (), w') \<Longrightarrow>
    \<exists>row. blogs w' = blogs w @ [row] \<and> blog_excerpt row = Some (excerpt_of (content s)) \<and>
       blog_title row = title_of (title s) (content s) \<and> blog_content row = content s"
  by (auto simp add: createBlog_def Let_def split: option.splits if_splits prod.splits sum.splits)

lemma updateBlog_rows:
  "updateBlog e b s w = (Inr (), w') \<Longrightarrow> editingBlog s = Some editing \<Longrightarrow>
    length (blogs w') = length (blogs w) \<and>
    (\<forall>i<length (blogs w).
       (blog_id (blogs w ! i) = blog_id editing \<longrightarrow>
          blog_excerpt (blogs w' ! i) = Some (excerpt_of (content s)) \<and>
          blog_title (blogs w' ! i) = title_of (title s) (content s) \<and>
          blog_content (blogs w' ! i) = content s) \<and>
       (blog_id (blogs w ! i) \<noteq> blog_id editing \<longrightarrow> blogs w' ! i = blogs w ! i))"
  by (auto simp add: updateBlog_def Let_def split: option.splits if_splits prod.splits sum.splits)

lemma demo_create:
  "createBlog demo_env demo_blogs_env demo_editor demo_world
     = (Inr (), snd (createBlog demo_env demo_blogs_env demo_editor demo_world))"
  "map blog_title (blogs (snd (createBlog demo_env demo_blogs_env demo_editor demo_world)))
     = [js ''Old'', js ''Hi'']"
  "map blog_excerpt (blogs (snd (createBlog demo_env demo_blogs_env demo_editor demo_world)))
     = [None, Some (js ''hello'')]"
  by (simp_all add: createBlog_def demo_env_def demo_blogs_env_def demo_editor_def demo_world_def
      initial_editor_def old_row_def empty_storage_def file_a_def uploadFiles_def
      storage_upload_def upload_path_def ext_of_def classify_def trim_def is_js_space_def
      title_of_def or_str_def excerpt_of_def js_def Let_def)

lemma demo_update:
  "updateBlog demo_env demo_blogs_env (demo_editor\<lparr>editingBlog := Some old_row\<rparr>) demo_world2
     = (Inr (), snd (updateBlog demo_env demo_blogs_env (demo_editor\<lparr>editingBlog := Some old_row\<rparr>) demo_world2))"
  "map blog_title
     (blogs (snd (updateBlog demo_env demo_blogs_env (demo_editor\<lparr>editingBlog := Some old_row\<rparr>) demo_world2)))
     = [js ''Hi'', js ''Other'']"
  "map blog_excerpt
     (blogs (snd (updateBlog demo_env demo_blogs_env (demo_editor\<lparr>editingBlog := Some old_row\<rparr>) demo_world2)))
     = [Some (js ''hello''), Some (js ''other text'')]"
  by (simp_all add: updateBlog_def demo_env_def demo_blogs_env_def demo_editor_def demo_world2_def
      initial_editor_def old_row_def other_row_def empty_storage_def file_a_def uploadFiles_def
      storage_upload_def upload_path_def ext_of_def classify_def trim_def is_js_space_def
      title_of_def or_str_def excerpt_of_def js_def Let_def)

text \<open>
  C9.  The excerpt is the content when the content has at most 150 code units, and its
  first 150 followed by \<open>...\<close> otherwise; the title is the trimmed title when that is
  not empty, else the first 60 code units of the content when they are not empty, else
  \<open>Untitled\<close>.  A create that succeeds appends one row that holds this title and this
  excerpt; an update that succeeds writes them into every row with the edited blog's id
  and leaves the other rows as they were.
\<close>

theorem stored_excerpt_and_title:
  "excerpt_of c = (if length c > 150 then take 150 c @ js ''...'' else c) \<and>
   title_of t c =
     (if trim t \<noteq> [] then trim t else if take 60 c \<noteq> [] then take 60 c else js ''Untitled'') \<and>
   (createBlog e b s w = (Inr (), w') \<longrightarrow>
      (\<exists>row. blogs w' = blogs w @ [row] \<and>
         blog_excerpt row = Some (excerpt_of (content s)) \<and>
         blog_title row = title_of (title s) (content s) \<and>
         blog_content row = content s)) \<and>
   (updateBlog e b s w = (Inr (), w'') \<and> editingBlog s = Some editing \<longrightarrow>
      length (blogs w'') = length (blogs w) \<and>
      (\<forall>i<length (blogs w).
         (blog_id (blogs w ! i) = blog_id editing \<longrightarrow>
            blog_excerpt (blogs w'' ! i) = Some (excerpt_of (content s)) \<and>
            blog_title (blogs w'' ! i) = title_of (title s) (content s) \<and>
            blog_content (blogs w'' ! i) = content s) \<and>
         (blog_id (blogs w ! i) \<noteq> blog_id editing \<longrightarrow> blogs w'' ! i = blogs w ! i)))"
proof (intro conjI impI)
  show "excerpt_of c = (if length c > 150 then take 150 c @ js ''...'' else c)"
    by (simp add: excerpt_of_def)
  show "title_of t c =
     (if trim t \<noteq> [] then trim t else if take 60 c \<noteq> [] then take 60 c else js ''Untitled'')"
    by (simp add: title_of_def or_str_def)
next
  assume "createBlog e b s w = (Inr (), w')"
  then show "\<exists>row. blogs w' = blogs w @ [row] \<and>
         blog_excerpt row = Some (excerpt_of (content s)) \<and>
         blog_title row = title_of (title s) (content s) \<and>
         blog_content row = content s"
    by (rule createBlog_row)
next
  assume u: "updateBlog e b s w = (Inr (), w'') \<and> editingBlog s = Some editing"
  from updateBlog_rows [of e b s w w'' editing] u
  show "length (blogs w'') = length (blogs w)" by blast
  from updateBlog_rows [of e b s w w'' editing] u
  show "\<forall>i<length (blogs w).
         (blog_id (blogs w ! i) = blog_id editing \<longrightarrow>
            blog_excerpt (blogs w'' ! i) = Some (excerpt_of (content s)) \<and>
            blog_title (blogs w'' ! i) = title_of (title s) (content s) \<and>
            blog_content (blogs w'' ! i) = content s) \<and>
         (blog_id (blogs w ! i) \<noteq> blog_id editing \<longrightarrow> blogs w'' ! i = blogs w ! i)"
    by blast
qed

theorem stored_excerpt_and_title_witness:
  "excerpt_of (replicate 151 0x61) = replicate 150 0x61 @ js ''...'' \<and>
   excerpt_of (replicate 150 0x61) = replicate 150 0x61 \<and>
   title_of (js '' Hi '') (js ''hello'') = js ''Hi'' \<and>
   title_of (js ''   '') (replicate 61 0x61) = replicate 60 0x61 \<and>
   title_of (js '' '') [] = js ''Untitled'' \<and>
   fst (createBlog demo_env demo_blogs_env demo_editor demo_world) = Inr () \<and>
   (\<exists>row. blogs (snd (createBlog demo_env demo_blogs_env demo_editor demo_world))
             = blogs demo_world @ [row] \<and>
          blog_excerpt row = Some (js ''hello'') \<and> blog_title row = js ''Hi'') \<and>
   fst (updateBlog demo_env demo_blogs_env (demo_editor\<lparr>editingBlog := Some old_row\<rparr>) demo_world2)
     = Inr () \<and>
   blog_title (blogs (snd (updateBlog demo_env demo_blogs_env
       (demo_editor\<lparr>editingBlog := Some old_row\<rparr>) demo_world2)) ! 0) = js ''Hi'' \<and>
   blog_excerpt (blogs (snd (updateBlog demo_env demo_blogs_env
       (demo_editor\<lparr>editingBlog := Some old_row\<rparr>) demo_world2)) ! 0) = Some (js ''hello'') \<and>
   blogs (snd (updateBlog demo_env demo_blogs_env
       (demo_editor\<lparr>editingBlog := Some old_row\<rparr>) demo_world2)) ! 1 = other_row"
proof -
  let ?s = "demo_editor\<lparr>editingBlog := Some old_row\<rparr>"
  let ?wc = "snd (createBlog demo_env demo_blogs_env demo_editor demo_world)"
  let ?wu = "snd (updateBlog demo_env demo_blogs_env ?s demo_world2)"
  have vals: "excerpt_of (content demo_editor) = js ''hello''"
    "title_of (title demo_editor) (content demo_editor) = js ''Hi''"
    "excerpt_of (content ?s) = js ''hello''"
    "title_of (title ?s) (content ?s) = js ''Hi''"
    by (simp_all add: demo_editor_def initial_editor_def excerpt_of_def title_of_def or_str_def
        trim_def is_js_space_def js_def)
  have rules: "excerpt_of (replicate 151 0x61) = replicate 150 0x61 @ js ''...''"
    "excerpt_of (replicate 150 0x61) = replicate 150 0x61"
    "title_of (js '' Hi '') (js ''hello'') = js ''Hi''"
    "title_of (js ''   '') (replicate 61 0x61) = replicate 60 0x61"
    "title_of (js '' '') [] = js ''Untitled''"
    using stored_excerpt_and_title [of "replicate 151 0x61"]
      stored_excerpt_and_title [of "replicate 150 0x61"]
      stored_excerpt_and_title [of _ "js '' Hi ''" _ _ _ _ _ _ _]
    by (simp_all add: title_of_def or_str_def trim_def is_js_space_def js_def excerpt_of_def)
  from demo_create(1) stored_excerpt_and_title [of _ _ demo_env demo_blogs_env demo_editor demo_world ?wc]
  have c: "\<exists>row. blogs ?wc = blogs demo_world @ [row] \<and>
          blog_excerpt row = Some (js ''hello'') \<and> blog_title row = js ''Hi''"
    unfolding vals by blast
  have e: "editingBlog ?s = Some old_row" by simp
  have ids: "blog_id (blogs demo_world2 ! 0) = blog_id old_row"
    "blog_id (blogs demo_world2 ! 1) \<noteq> blog_id old_row"
    "0 < length (blogs demo_world2)" "1 < length (blogs demo_world2)"
    by (simp_all add: demo_world2_def old_row_def other_row_def js_def)
  from demo_update(1) e
    stored_excerpt_and_title [of _ _ demo_env demo_blogs_env ?s demo_world2 _ ?wu old_row]
  have all: "\<forall>i<length (blogs demo_world2).
         (blog_id (blogs demo_world2 ! i) = blog_id old_row \<longrightarrow>
            blog_excerpt (blogs ?wu ! i) = Some (excerpt_of (content ?s)) \<and>
            blog_title (blogs ?wu ! i) = title_of (title ?s) (content ?s) \<and>
            blog_content (blogs ?wu ! i) = content ?s) \<and>
         (blog_id (blogs demo_world2 ! i) \<noteq> blog_id old_row \<longrightarrow>
            blogs ?wu ! i = blogs demo_world2 ! i)"
    by blast
  from all ids have u0: "blog_title (blogs ?wu ! 0) = js ''Hi''"
    "blog_excerpt (blogs ?wu ! 0) = Some (js ''hello'')"
    unfolding vals by blast+
  from all ids have "blogs ?wu ! 1 = blogs demo_world2 ! 1" by blast
  then have u1: "blogs ?wu ! 1 = other_row" by (simp add: demo_world2_def)
  have f: "fst (createBlog demo_env demo_blogs_env demo_editor demo_world) = Inr ()"
    "fst (updateBlog demo_env demo_blogs_env ?s demo_world2) = Inr ()"
    using demo_create(1) demo_update(1) by (metis fst_conv)+
  from rules c f u0 u1 show ?thesis by blast
qed

section \<open>Rounding to doubles\<close>

lemma ilog2_bounds:
  assumes "0 < a"
  shows "2 powi (ilog2 a) \<le> a" and "a < 2 powi (ilog2 a + 1)"
proof -
  have "2 powi (ilog2 a) \<le> a \<and> a < 2 powi (ilog2 a + 1)"
  proof (cases "1 \<le> a")
    case True
    define n where "n = nat \<lfloor>a\<rfloor>"
    from True have n: "0 < n" by (simp add: n_def)
    from floorlog_bounds [of n 2] n
    have b: "2 ^ (floorlog 2 n - 1) \<le> n" "n < 2 ^ floorlog 2 n" by simp_all
    from n have fl: "0 < floorlog 2 n" by (simp add: floorlog_def)
    have e: "ilog2 a = int (floorlog 2 n - 1)" using True fl by (simp add: ilog2_def n_def)
    have na: "rat_of_nat n \<le> a" "a < rat_of_nat n + 1"
      using True by (simp_all add: n_def) linarith+
    have "(2::rat) ^ (floorlog 2 n - 1) \<le> rat_of_nat n"
      using b(1) by (metis of_nat_le_iff of_nat_numeral of_nat_power)
    with na have lo: "2 ^ (floorlog 2 n - 1) \<le> a" by linarith
    have "rat_of_nat (Suc n) \<le> rat_of_nat (2 ^ floorlog 2 n)"
      using b(2) by (simp only: of_nat_le_iff Suc_le_eq)
    then have "rat_of_nat n + 1 \<le> 2 ^ floorlog 2 n" by simp
    with na have hi: "a < 2 ^ floorlog 2 n" by linarith
    have "ilog2 a + 1 = int (floorlog 2 n)" using e fl by simp
    with lo hi e show ?thesis by (simp only: power_int_of_nat)
  next
    case False
    define y where "y = 1 / a"
    define n where "n = nat \<lceil>y\<rceil>"
    define k where "k = ceillog2 n"
    from False assms have y: "1 < y" by (simp add: y_def)
    then have n: "1 < n" unfolding n_def by linarith
    have e: "ilog2 a = - int k" using False by (simp add: ilog2_def k_def n_def y_def)
    have yn: "y \<le> rat_of_nat n" unfolding n_def using y by (simp add: le_of_int_ceiling)
    have nk: "n \<le> 2 ^ k" unfolding k_def by (rule le_two_power_ceillog2)
    then have "rat_of_nat n \<le> 2 ^ k" by (metis of_nat_le_iff of_nat_numeral of_nat_power)
    with yn have "y \<le> 2 ^ k" by linarith
    then have lo: "2 powi (- int k) \<le> a"
      using assms by (simp add: y_def power_int_minus field_simps)
    from nk n have k: "0 < k" by (cases k) simp_all
    from two_power_ceillog2_gt [of n] n have "2 ^ k < 2 * n" by (simp add: k_def)
    with k have "2 ^ (k - 1) < n" by (cases k) simp_all
    then have "int (2 ^ (k - 1)) < \<lceil>y\<rceil>" using n by (simp add: n_def)
    then have "of_int (int (2 ^ (k - 1))) < y" by (simp only: less_ceiling_iff)
    then have "2 ^ (k - 1) < y" by simp
    then have "a < 1 / 2 ^ (k - 1)" using assms by (simp add: y_def field_simps)
    also have "1 / 2 ^ (k - 1) = (2::rat) powi (- int k + 1)"
      using k by (cases k) (simp_all add: power_int_def nat_add_distrib field_simps)
    finally show ?thesis using lo e by simp
  qed
  then show "2 powi (ilog2 a) \<le> a" and "a < 2 powi (ilog2 a + 1)" by simp_all
qed

lemma ilog2_unique:
  assumes "2 powi e \<le> a" "a < 2 powi (e + 1)"
  shows "ilog2 a = e"
proof -
  have "0 < (2::rat) powi e" by simp
  with assms(1) have pos: "0 < a" by linarith
  note b = ilog2_bounds [OF pos]
  show ?thesis
  proof (rule ccontr)
    assume ne: "ilog2 a \<noteq> e"
    show False
    proof (cases "ilog2 a < e")
      case True
      then have "(2::rat) powi (ilog2 a + 1) \<le> 2 powi e"
        by (intro power_int_increasing) simp_all
      with b(2) assms(1) show False by simp
    next
      case False
      with ne have "e + 1 \<le> ilog2 a" by simp
      then have "(2::rat) powi (e + 1) \<le> 2 powi (ilog2 a)"
        by (intro power_int_increasing) simp_all
      with b(1) assms(2) show False by simp
    qed
  qed
qed

lemma round_even_of_int [simp]: "round_even (of_int n) = n"
  by (simp add: round_even_def)

lemma round_even_bounds:
  "r - 1 / 2 \<le> of_int (round_even r)" "of_int (round_even r) \<le> r + 1 / 2"
proof -
  define f where "f = \<lfloor>r\<rfloor>"
  have f: "rat_of_int f \<le> r" "r < rat_of_int f + 1" unfolding f_def by linarith+
  have e: "round_even r =
     (if r - of_int f < 1 / 2 then f else if 1 / 2 < r - of_int f then f + 1
      else if even f then f else f + 1)"
    by (simp add: round_even_def Let_def f_def)
  from f show "r - 1 / 2 \<le> of_int (round_even r)" unfolding e by (simp split: if_splits)
  from f show "of_int (round_even r) \<le> r + 1 / 2" unfolding e by (simp split: if_splits)
qed

lemma quantum_pos [simp]: "0 < quantum a"
  by (simp add: quantum_def)

lemma rd_pos:
  "0 < a \<Longrightarrow> rd a =
     (if 2 powi 1024 \<le> of_int (round_even (a / quantum a)) * quantum a then PosInf
      else Fin (of_int (round_even (a / quantum a)) * quantum a))"
  by (simp add: rd_def Let_def)

lemma rd_minus: "rd (- x) = js_neg (rd x)"
  by (cases "x = 0"; cases "x < 0") (auto simp add: rd_def Let_def js_neg_def)

lemma rd_exact:
  assumes "0 < a" "a = of_int n * quantum a" "a < 2 powi 1024"
  shows "rd a = Fin a"
proof -
  have "a / quantum a = of_int n"
    using assms(2) quantum_pos [of a] by (metis less_irrefl nonzero_mult_div_cancel_right)
  then have "of_int (round_even (a / quantum a)) * quantum a = a"
    using assms(2) by simp
  with assms(1,3) show ?thesis by (simp add: rd_pos)
qed

lemma pow2_less_cancel: "(2::rat) powi a < 2 powi b \<Longrightarrow> a < b"
proof (rule ccontr)
  assume l: "(2::rat) powi a < 2 powi b" and "\<not> a < b"
  then have "b \<le> a" by simp
  then have "(2::rat) powi b \<le> 2 powi a" by (intro power_int_increasing) simp_all
  with l show False by simp
qed

lemma pow2_split: "(2::rat) powi (a + b) = 2 powi a * 2 powi b"
  by (simp add: power_int_add)

lemma pow2_quantum: "(2::rat) powi (e - 52) = 2 powi e / 2 ^ 52"
  by (simp add: power_int_diff)

lemma pow2_Suc: "(2::rat) powi (E + 1) = 2 * 2 powi E"
  using pow2_split [of E 1] by simp

lemma grid_point:
  assumes n: "0 < n" "n \<le> 2 ^ 53" and E: "- 1022 \<le> E"
    and sub: "n < 2 ^ 52 \<Longrightarrow> E = - 1022"
    and m: "m = rat_of_int n * 2 powi (E - 52)"
  shows "\<exists>n'. m = rat_of_int n' * quantum m"
proof -
  have q: "(2::rat) powi (E - 52) = 2 powi E / 2 ^ 52"
    by (rule pow2_quantum)
  have mpos: "0 < m" using n(1) m by simp
  consider "n = 2 ^ 53" | "2 ^ 52 \<le> n" "n < 2 ^ 53" | "n < 2 ^ 52" using n(2) by linarith
  then show ?thesis
  proof cases
    case 1
    then have "m = 2 * 2 powi E" unfolding m q by simp
    then have mm: "m = 2 powi (E + 1)" by (simp only: pow2_Suc)
    have "(2::rat) powi (E + 1) < 2 powi (E + 1 + 1)"
      by (intro power_int_strict_increasing) simp_all
    with mm have "ilog2 m = E + 1"
      by (intro ilog2_unique) simp_all
    with E have "quantum m = 2 powi (E + 1 - 52)" by (simp add: quantum_def max_def)
    also have "\<dots> = 2 powi (E + 1) / 2 ^ 52" by (rule pow2_quantum)
    finally have "m = rat_of_int (2 ^ 52) * quantum m" using mm by simp
    then show ?thesis by blast
  next
    case 2
    have "rat_of_int (2 ^ 52) \<le> rat_of_int n" "rat_of_int n < rat_of_int (2 ^ 53)"
      using 2 by (simp_all only: of_int_le_iff of_int_less_iff)
    then have r: "2 ^ 52 \<le> rat_of_int n" "rat_of_int n < 2 ^ 53" by simp_all
    have p: "0 < (2::rat) powi E" by simp
    have lo: "2 powi E \<le> m"
    proof -
      have "2 powi E * 1 \<le> 2 powi E * (rat_of_int n / 2 ^ 52)"
        using r(1) p by (intro mult_left_mono) simp_all
      then show ?thesis unfolding m q by (simp add: mult.commute)
    qed
    have hi: "m < 2 powi (E + 1)"
    proof -
      have "2 powi E * (rat_of_int n / 2 ^ 52) < 2 powi E * 2"
        using r(2) p by (intro mult_strict_left_mono) simp_all
      then show ?thesis unfolding m q by (simp add: mult.commute pow2_Suc)
    qed
    from lo hi have "ilog2 m = E" by (rule ilog2_unique)
    with E have "quantum m = 2 powi (E - 52)" by (simp add: quantum_def max_def)
    with m show ?thesis by auto
  next
    case 3
    with sub have E': "E = - 1022" by simp
    have "rat_of_int n < rat_of_int (2 ^ 52)" using 3 by (simp only: of_int_less_iff)
    then have r: "rat_of_int n < 2 ^ 52" by simp
    have p: "0 < (2::rat) powi E" by simp
    have "2 powi E * (rat_of_int n / 2 ^ 52) < 2 powi E * 1"
      using r p by (intro mult_strict_left_mono) simp_all
    then have hi: "m < 2 powi E" unfolding m q by (simp add: mult.commute)
    from ilog2_bounds(1) [OF mpos] hi have "(2::rat) powi (ilog2 m) < 2 powi E" by simp
    then have "ilog2 m < E" by (rule pow2_less_cancel)
    with E' have "quantum m = 2 powi (E - 52)" by (simp add: quantum_def max_def)
    with m show ?thesis by auto
  qed
qed

lemma rd_Fin_pos:
  assumes "0 < x" "rd x = Fin y"
  shows "rd y = Fin y"
proof -
  define E where "E = max (ilog2 x) (- 1022)"
  define n where "n = round_even (x / quantum x)"
  have q: "quantum x = 2 powi (E - 52)" by (simp add: quantum_def E_def)
  have q': "(2::rat) powi (E - 52) = 2 powi E / 2 ^ 52" by (rule pow2_quantum)
  from assms have y: "y = rat_of_int n * quantum x" and lt: "y < 2 powi 1024"
    by (simp_all add: rd_pos n_def split: if_splits)
  have p: "0 < (2::rat) powi E" by simp
  have r: "x / quantum x = x * 2 ^ 52 / 2 powi E" by (simp add: q q')
  have "x < 2 powi (ilog2 x + 1)" using assms(1) by (rule ilog2_bounds)
  also have "\<dots> \<le> 2 powi (E + 1)" by (intro power_int_increasing) (simp_all add: E_def)
  finally have "x < 2 powi E * 2" by (simp add: pow2_Suc)
  then have up: "x / quantum x < 2 ^ 53" using p by (simp add: r field_simps)
  have pos: "0 < x / quantum x" using assms(1) by simp
  from round_even_bounds [of "x / quantum x"] up pos
  have "rat_of_int n < 2 ^ 53 + 1 / 2" "- 1 / 2 < rat_of_int n" by (simp_all add: n_def)
  then have "rat_of_int n < rat_of_int (2 ^ 53 + 1)" "rat_of_int (- 1) < rat_of_int n" by simp_all
  then have "n < 2 ^ 53 + 1" "- 1 < n" by (simp_all only: of_int_less_iff)
  then have nb: "n \<le> 2 ^ 53" "0 \<le> n" by simp_all
  show ?thesis
  proof (cases "n = 0")
    case True
    with y show ?thesis by (simp add: rd_def)
  next
    case False
    with nb have n0: "0 < n" by simp
    have sub: "E = - 1022" if "n < 2 ^ 52"
    proof (rule ccontr)
      assume "E \<noteq> - 1022"
      then have E: "E = ilog2 x" by (simp add: E_def max_def split: if_splits)
      have "2 powi E \<le> x" unfolding E using assms(1) by (rule ilog2_bounds)
      then have "2 ^ 52 \<le> x / quantum x" using p by (simp add: r field_simps)
      with round_even_bounds(1) [of "x / quantum x"] have "2 ^ 52 - 1 / 2 \<le> rat_of_int n"
        by (simp add: n_def)
      then have "rat_of_int (2 ^ 52 - 1) < rat_of_int n" by simp
      then have "2 ^ 52 - 1 < n" by (simp only: of_int_less_iff)
      with that show False by simp
    qed
    have E: "- 1022 \<le> E" by (simp add: E_def)
    have yq: "y = rat_of_int n * 2 powi (E - 52)" using y q by simp
    have "\<exists>n'. y = rat_of_int n' * quantum y"
      using n0 nb(1) E sub yq by (rule grid_point)
    then obtain n' where "y = rat_of_int n' * quantum y" ..
    moreover have "0 < y" using n0 y by simp
    ultimately show ?thesis using lt by (intro rd_exact)
  qed
qed

lemma js_neg_Fin: "js_neg v = Fin y \<longleftrightarrow> v = Fin (- y)"
  by (cases v) (auto simp add: js_neg_def)

lemma rd_idem: "rd x = Fin y \<Longrightarrow> rd y = Fin y"
proof -
  assume a: "rd x = Fin y"
  consider "x = 0" | "0 < x" | "x < 0" by linarith
  then show ?thesis
  proof cases
    case 1
    with a show ?thesis by (simp add: rd_def)
  next
    case 2
    from this a show ?thesis by (rule rd_Fin_pos)
  next
    case 3
    from a have "js_neg (rd (- x)) = Fin y" using rd_minus [of "- x"] by simp
    then have "rd (- x) = Fin (- y)" by (simp add: js_neg_Fin)
    with 3 have "rd (- y) = Fin (- y)" by (intro rd_Fin_pos [of "- x"]) simp_all
    then show ?thesis using rd_minus [of "- y"] by (simp add: js_neg_def)
  qed
qed

lemma rd_int_pos:
  assumes "0 < k" "k \<le> 2 ^ 53"
  shows "rd (rat_of_int k) = Fin (rat_of_int k)"
proof -
  define a where "a = rat_of_int k"
  define e where "e = ilog2 a"
  have "rat_of_int k \<le> rat_of_int (2 ^ 53)" using assms(2) by (simp only: of_int_le_iff)
  then have le: "a \<le> 2 ^ 53" by (simp add: a_def)
  have "1 \<le> k" using assms(1) by simp
  then have "rat_of_int 1 \<le> rat_of_int k" by (simp only: of_int_le_iff)
  then have ge: "1 \<le> a" by (simp add: a_def)
  then have pos: "0 < a" by simp
  note b = ilog2_bounds [OF pos, folded e_def]
  have "(2::rat) powi 0 < 2 powi (e + 1)" using ge b(2) by simp
  then have e0: "0 \<le> e" using pow2_less_cancel [of 0 "e + 1"] by simp
  have "(2::rat) powi e < 2 powi 54"
  proof -
    have "(2::rat) powi e \<le> 2 ^ 53" using b(1) le by simp
    also have "\<dots> < (2::rat) powi 54" by simp
    finally show ?thesis .
  qed
  then have e53: "e \<le> 53" using pow2_less_cancel [of e 54] by simp
  have q: "quantum a = 2 powi (e - 52)" using e0 by (simp add: quantum_def e_def max_def)
  have lt: "a < 2 powi 1024"
  proof -
    have "a < (2::rat) powi 54" using le by simp
    also have "\<dots> \<le> 2 powi 1024" by (intro power_int_increasing) simp_all
    finally show ?thesis .
  qed
  have "\<exists>n. a = rat_of_int n * quantum a"
  proof (cases "e \<le> 52")
    case True
    have "(2::rat) powi (52 - e) * 2 powi (e - 52) = 2 powi ((52 - e) + (e - 52))"
      by (simp only: pow2_split)
    then have one: "(2::rat) powi (52 - e) * 2 powi (e - 52) = 1" by simp
    have pw: "rat_of_int (2 ^ nat (52 - e)) = (2::rat) powi (52 - e)"
      using True by (simp add: power_int_def)
    have "rat_of_int (k * 2 ^ nat (52 - e)) * quantum a
        = rat_of_int k * (rat_of_int (2 ^ nat (52 - e)) * 2 powi (e - 52))"
      unfolding q by (simp only: of_int_mult mult.assoc)
    also have "\<dots> = rat_of_int k" unfolding pw one by simp
    finally have "a = rat_of_int (k * 2 ^ nat (52 - e)) * quantum a" by (simp only: a_def)
    then show ?thesis by blast
  next
    case False
    with e53 have e: "e = 53" by simp
    with b(1) le have "a = 2 ^ 53" by simp
    moreover have "quantum a = 2" using q e by simp
    ultimately have "a = rat_of_int (2 ^ 52) * quantum a" by simp
    then show ?thesis by blast
  qed
  then obtain n where "a = rat_of_int n * quantum a" ..
  with pos lt have "rd a = Fin a" by (intro rd_exact)
  then show ?thesis by (simp add: a_def)
qed

lemma rd_int: "\<bar>k\<bar> \<le> 2 ^ 53 \<Longrightarrow> rd (rat_of_int k) = Fin (rat_of_int k)"
proof -
  assume a: "\<bar>k\<bar> \<le> 2 ^ 53"
  consider "k = 0" | "0 < k" | "k < 0" by linarith
  then show ?thesis
  proof cases
    case 1
    then show ?thesis by (simp add: rd_def)
  next
    case 2
    with a show ?thesis by (intro rd_int_pos) simp_all
  next
    case 3
    with a have "rd (rat_of_int (- k)) = Fin (rat_of_int (- k))" by (intro rd_int_pos) simp_all
    then show ?thesis using rd_minus [of "rat_of_int (- k)"] by (simp add: js_neg_def)
  qed
qed

lemma rd_numeral [simp]: "numeral w \<le> (2::int) ^ 53 \<Longrightarrow> rd (numeral w) = Fin (numeral w)"
  using rd_int [of "numeral w"] by simp

lemma rd_0 [simp]: "rd 0 = Fin 0"
  by (simp add: rd_def)

lemma rd_1 [simp]: "rd 1 = Fin 1"
  using rd_int [of 1] by simp

text \<open>What the operations return is a double; adding \<open>0\<close> changes nothing, and \<open>0\<close> times
  a finite number is \<open>0\<close>.\<close>

lemma is_double_rd [simp]: "is_double (rd x)"
proof (cases "rd x")
  case (Fin y)
  with rd_idem [OF Fin] show ?thesis by (simp add: is_double_def)
qed (simp_all add: is_double_def)

lemma is_double_others [simp]: "is_double PosInf" "is_double NegInf" "is_double NaN" "is_double (Fin 0)"
  by (simp_all add: is_double_def)

lemma is_double_js_add [simp]: "is_double (js_add a b)"
  by (cases a; cases b) (simp_all add: js_add_def)

lemma is_double_js_mul [simp]: "is_double (js_mul a b)"
  by (cases a; cases b) (simp_all add: js_mul_def)

lemma js_add_zero: "is_double s \<Longrightarrow> js_add s (Fin 0) = s"
  by (cases s) (simp_all add: js_add_def is_double_def)

lemma js_mul_zero: "js_mul (Fin 0) (Fin q) = Fin 0"
  by (simp add: js_mul_def)

text \<open>Evaluating \<open>rd\<close> on a positive number whose binary exponent \<open>e\<close> is given.\<close>

lemma floor_rat_numeral [simp]: "\<lfloor>numeral a / numeral b :: rat\<rfloor> = numeral a div numeral b"
  using floor_divide_of_int_eq [of "numeral a" "numeral b", where ?'a = rat] by simp

section \<open>Numbers as text: evaluation\<close>

lemma digits_of_small [simp]: "n < 10 \<Longrightarrow> digits_of n = [digit n]"
  by (simp add: digits_of.simps)

lemma digits_of_step [simp]:
  "10 \<le> n \<Longrightarrow> digits_of n = digits_of (n div 10) @ [digit (n mod 10)]"
  by (subst digits_of.simps) simp

section \<open>The checkout total\<close>


lemma checkout_total_Nil [simp]: "checkout_total [] = Fin 0"
  by (simp add: checkout_total_def)

lemma checkout_total_snoc:
  "checkout_total (items @ [item]) = js_add (checkout_total items) (line_amount item)"
  by (simp add: checkout_total_def line_amount_def)

lemma is_double_checkout_total [simp]: "is_double (checkout_total items)"
  by (induction items rule: rev_induct) (simp_all add: checkout_total_snoc)

lemma checkout_total_append:
  "checkout_total (xs @ ys) =
     foldl (\<lambda>sum item. js_add sum (line_amount item)) (checkout_total xs) ys"
  by (simp add: checkout_total_def line_amount_def)

lemma checkout_total_skip:
  assumes "line_amount item = Fin 0"
  shows "checkout_total (xs @ item # ys) = checkout_total (xs @ ys)"
proof -
  have "checkout_total (xs @ [item]) = checkout_total xs"
    by (simp add: checkout_total_snoc assms js_add_zero)
  then have "checkout_total ((xs @ [item]) @ ys) = checkout_total (xs @ ys)"
    by (simp only: checkout_total_append)
  then show ?thesis by simp
qed


lemma createOrder_order_fails:
  "order_error e = Some err \<Longrightarrow>
     createOrder e (Some uid) (Some items) d = (Inl err, d\<lparr>calls := calls d @ [InsertOrder]\<rparr>)"
  by (simp add: createOrder_def Let_def)

lemma createOrder_items_fail:
  "order_error e = None \<Longrightarrow> items_error e = Some err \<Longrightarrow>
     createOrder e (Some uid) (Some items) d =
       (Inl err, d\<lparr>orders := orders d @ [new_order e uid (checkout_total items)],
                   calls := calls d @ [InsertOrder, InsertOrderItems]\<rparr>)"
  by (simp add: createOrder_def Let_def)

lemma createOrder_clear_fails:
  "order_error e = None \<Longrightarrow> items_error e = None \<Longrightarrow> clear_error e = Some err \<Longrightarrow>
     createOrder e (Some uid) (Some items) d =
       (Inl err, d\<lparr>orders := orders d @ [new_order e uid (checkout_total items)],
                   order_items := order_items d @ map (order_item_of (new_order_id e)) items,
                   calls := calls d @ [InsertOrder, InsertOrderItems, ClearCart]\<rparr>)"
  by (simp add: createOrder_def Let_def new_order_def)

lemma createOrder_ok:
  "order_error e = None \<Longrightarrow> items_error e = None \<Longrightarrow> clear_error e = None \<Longrightarrow>
     createOrder e (Some uid) (Some items) d =
       (Inr (checkout_total items),
        d\<lparr>orders := orders d @ [new_order e uid (checkout_total items)],
          order_items := order_items d @ map (order_item_of (new_order_id e)) items,
          cart_items := filter (\<lambda>c. cart_user_id c \<noteq> uid) (cart_items d),
          calls := calls d @ [InsertOrder, InsertOrderItems, ClearCart]\<rparr>)"
  by (simp add: createOrder_def Let_def new_order_def)


lemma demo_total: "checkout_total [line_10x2, line_5x1] = Fin 25"
  by (simp add: checkout_total_def unit_price_def num_or_def price_of_def line_10x2_def
      line_5x1_def js_add_def js_mul_def)





lemma quantities_01 [simp]: "quantity line_01 = 1" "quantity line_02 = 1" "quantity line_03 = 1"
  by (simp_all add: line_01_def line_02_def line_03_def)















section \<open>A cart line whose product is missing\<close>

text \<open>
  C10.  A cart line whose joined product is missing has unit price 0 and adds nothing to
  the total; its order item has the price 0 and the product name \<open>""\<close>.  With such a
  line in the cart the checkout still succeeds when the three remote calls do, and
  writes one order item per cart line, this one included.
\<close>

theorem missing_product_line:
  "products item = None \<longrightarrow>
     unit_price item = Fin 0 \<and>
     checkout_total (xs @ item # ys) = checkout_total (xs @ ys) \<and>
     order_item_of oid item =
       \<lparr>oi_order_id = oid, oi_product_id = product_id item, oi_product_name = [],
        oi_quantity = quantity item, oi_price = Fin 0\<rparr> \<and>
     (order_error e = None \<and> items_error e = None \<and> clear_error e = None \<longrightarrow>
        fst (createOrder e (Some uid) (Some (xs @ item # ys)) d) = Inr (checkout_total (xs @ ys)) \<and>
        order_items (snd (createOrder e (Some uid) (Some (xs @ item # ys)) d))
          = order_items d @ map (order_item_of (new_order_id e)) xs
              @ [\<lparr>oi_order_id = new_order_id e, oi_product_id = product_id item,
                  oi_product_name = [], oi_quantity = quantity item, oi_price = Fin 0\<rparr>]
              @ map (order_item_of (new_order_id e)) ys)"
proof (intro impI)
  assume none: "products item = None"
  then have u: "unit_price item = Fin 0"
    by (simp add: unit_price_def price_of_def num_or_def)
  have "line_amount item = Fin 0"
    by (simp add: line_amount_def u js_mul_zero)
  then have t: "checkout_total (xs @ item # ys) = checkout_total (xs @ ys)"
    by (rule checkout_total_skip)
  have o: "order_item_of oid item =
       \<lparr>oi_order_id = oid, oi_product_id = product_id item, oi_product_name = [],
        oi_quantity = quantity item, oi_price = Fin 0\<rparr>" for oid
    using none by (simp add: order_item_of_def u name_of_def opt_str_or_def)
  have c: "fst (createOrder e (Some uid) (Some (xs @ item # ys)) d) = Inr (checkout_total (xs @ ys)) \<and>
        order_items (snd (createOrder e (Some uid) (Some (xs @ item # ys)) d))
          = order_items d @ map (order_item_of (new_order_id e)) xs
              @ [\<lparr>oi_order_id = new_order_id e, oi_product_id = product_id item,
                  oi_product_name = [], oi_quantity = quantity item, oi_price = Fin 0\<rparr>]
              @ map (order_item_of (new_order_id e)) ys"
    if "order_error e = None \<and> items_error e = None \<and> clear_error e = None"
    using that by (simp add: createOrder_ok t o)
  from u t o c show "unit_price item = Fin 0 \<and>
     checkout_total (xs @ item # ys) = checkout_total (xs @ ys) \<and>
     order_item_of oid item =
       \<lparr>oi_order_id = oid, oi_product_id = product_id item, oi_product_name = [],
        oi_quantity = quantity item, oi_price = Fin 0\<rparr> \<and>
     (order_error e = None \<and> items_error e = None \<and> clear_error e = None \<longrightarrow>
        fst (createOrder e (Some uid) (Some (xs @ item # ys)) d) = Inr (checkout_total (xs @ ys)) \<and>
        order_items (snd (createOrder e (Some uid) (Some (xs @ item # ys)) d))
          = order_items d @ map (order_item_of (new_order_id e)) xs
              @ [\<lparr>oi_order_id = new_order_id e, oi_product_id = product_id item,
                  oi_product_name = [], oi_quantity = quantity item, oi_price = Fin 0\<rparr>]
              @ map (order_item_of (new_order_id e)) ys)"
    by blast
qed

theorem missing_product_line_witness:
  "products line_missing = None \<and>
   unit_price line_missing = Fin 0 \<and>
   checkout_total ([line_10x2] @ line_missing # [line_5x1]) = Fin 25 \<and>
   fst (createOrder all_ok (Some (js ''u1'')) (Some ([line_10x2] @ line_missing # [line_5x1])) demo_shop)
     = Inr (Fin 25) \<and>
   map oi_price (order_items (snd (createOrder all_ok (Some (js ''u1''))
       (Some ([line_10x2] @ line_missing # [line_5x1])) demo_shop))) = [Fin 10, Fin 0, Fin 5] \<and>
   map oi_product_name (order_items (snd (createOrder all_ok (Some (js ''u1''))
       (Some ([line_10x2] @ line_missing # [line_5x1])) demo_shop))) = [js ''Oil'', [], js ''Tea'']"
proof -
  have none: "products line_missing = None" by (simp add: line_missing_def)
  have ok: "order_error all_ok = None \<and> items_error all_ok = None \<and> clear_error all_ok = None"
    by (simp add: all_ok_def)
  note m = missing_product_line [of line_missing "[line_10x2]" "[line_5x1]" _ all_ok "js ''u1''" demo_shop]
  from none m have 1: "unit_price line_missing = Fin 0" by blast
  from none m have 2: "checkout_total ([line_10x2] @ line_missing # [line_5x1])
      = checkout_total ([line_10x2] @ [line_5x1])" by blast
  from none ok m have 3:
    "fst (createOrder all_ok (Some (js ''u1'')) (Some ([line_10x2] @ line_missing # [line_5x1])) demo_shop)
       = Inr (checkout_total ([line_10x2] @ [line_5x1]))" by blast
  from none ok m have 4:
    "order_items (snd (createOrder all_ok (Some (js ''u1''))
       (Some ([line_10x2] @ line_missing # [line_5x1])) demo_shop))
      = order_items demo_shop @ map (order_item_of (new_order_id all_ok)) [line_10x2]
          @ [\<lparr>oi_order_id = new_order_id all_ok, oi_product_id = product_id line_missing,
              oi_product_name = [], oi_quantity = quantity line_missing, oi_price = Fin 0\<rparr>]
          @ map (order_item_of (new_order_id all_ok)) [line_5x1]" by blast
  have 5: "checkout_total ([line_10x2] @ [line_5x1]) = Fin 25"
    using demo_total by simp
  have 6: "map oi_price (order_items demo_shop @ map (order_item_of (new_order_id all_ok)) [line_10x2]
          @ [\<lparr>oi_order_id = new_order_id all_ok, oi_product_id = product_id line_missing,
              oi_product_name = [], oi_quantity = quantity line_missing, oi_price = Fin 0\<rparr>]
          @ map (order_item_of (new_order_id all_ok)) [line_5x1]) = [Fin 10, Fin 0, Fin 5]"
    "map oi_product_name (order_items demo_shop @ map (order_item_of (new_order_id all_ok)) [line_10x2]
          @ [\<lparr>oi_order_id = new_order_id all_ok, oi_product_id = product_id line_missing,
              oi_product_name = [], oi_quantity = quantity line_missing, oi_price = Fin 0\<rparr>]
          @ map (order_item_of (new_order_id all_ok)) [line_5x1]) = [js ''Oil'', [], js ''Tea'']"
    by (simp_all add: demo_shop_def order_item_of_def unit_price_def price_of_def name_of_def
        num_or_def opt_str_or_def line_10x2_def line_5x1_def js_def)
  from none 1 2 3 4 5 6 show ?thesis by simp
qed

section \<open>The three writes of the checkout\<close>

text \<open>
  C5.  The checkout makes three remote calls in the order: insert the order, insert the
  order items, clear the cart.  A call that fails ends the sequence with its error, and
  what the earlier calls wrote stays: when the insert of the order items fails the order
  row is there and the cart is as it was; when clearing the cart fails the order and
  its items are there and the cart is as it was.  Nothing is undone.
\<close>

theorem checkout_writes_no_rollback:
  "(order_error e = Some err \<longrightarrow>
      createOrder e (Some uid) (Some items) d = (Inl err, d\<lparr>calls := calls d @ [InsertOrder]\<rparr>)) \<and>
   (order_error e = None \<and> items_error e = Some err \<longrightarrow>
      createOrder e (Some uid) (Some items) d =
        (Inl err, d\<lparr>orders := orders d @ [new_order e uid (checkout_total items)],
                    calls := calls d @ [InsertOrder, InsertOrderItems]\<rparr>)) \<and>
   (order_error e = None \<and> items_error e = None \<and> clear_error e = Some err \<longrightarrow>
      createOrder e (Some uid) (Some items) d =
        (Inl err, d\<lparr>orders := orders d @ [new_order e uid (checkout_total items)],
                    order_items := order_items d @ map (order_item_of (new_order_id e)) items,
                    calls := calls d @ [InsertOrder, InsertOrderItems, ClearCart]\<rparr>)) \<and>
   (order_error e = None \<and> items_error e = None \<and> clear_error e = None \<longrightarrow>
      createOrder e (Some uid) (Some items) d =
        (Inr (checkout_total items),
         d\<lparr>orders := orders d @ [new_order e uid (checkout_total items)],
           order_items := order_items d @ map (order_item_of (new_order_id e)) items,
           cart_items := filter (\<lambda>c. cart_user_id c \<noteq> uid) (cart_items d),
           calls := calls d @ [InsertOrder, InsertOrderItems, ClearCart]\<rparr>))"
  using createOrder_order_fails [of e err uid items d]
    createOrder_items_fail [of e err uid items d]
    createOrder_clear_fails [of e err uid items d]
    createOrder_ok [of e uid items d]
  by blast

theorem checkout_writes_no_rollback_witness:
  "createOrder order_fails (Some (js ''u1'')) (Some [line_10x2, line_5x1]) demo_shop
     = (Inl (StoreError (js ''orders down'')), demo_shop\<lparr>calls := [InsertOrder]\<rparr>) \<and>
   createOrder items_fail (Some (js ''u1'')) (Some [line_10x2, line_5x1]) demo_shop
     = (Inl (StoreError (js ''items down'')),
        demo_shop\<lparr>orders := [new_order items_fail (js ''u1'') (Fin 25)],
                   calls := [InsertOrder, InsertOrderItems]\<rparr>) \<and>
   cart_items (snd (createOrder items_fail (Some (js ''u1'')) (Some [line_10x2, line_5x1]) demo_shop))
     = [line_10x2, other_users_line, line_5x1] \<and>
   order_items (snd (createOrder items_fail (Some (js ''u1'')) (Some [line_10x2, line_5x1]) demo_shop))
     = [] \<and>
   createOrder clear_fails (Some (js ''u1'')) (Some [line_10x2, line_5x1]) demo_shop
     = (Inl (StoreError (js ''cart down'')),
        demo_shop\<lparr>orders := [new_order clear_fails (js ''u1'') (Fin 25)],
                   order_items := map (order_item_of (js ''o1'')) [line_10x2, line_5x1],
                   calls := [InsertOrder, InsertOrderItems, ClearCart]\<rparr>) \<and>
   cart_items (snd (createOrder clear_fails (Some (js ''u1'')) (Some [line_10x2, line_5x1]) demo_shop))
     = [line_10x2, other_users_line, line_5x1] \<and>
   createOrder all_ok (Some (js ''u1'')) (Some [line_10x2, line_5x1]) demo_shop
     = (Inr (Fin 25),
        demo_shop\<lparr>orders := [new_order all_ok (js ''u1'') (Fin 25)],
                   order_items := map (order_item_of (js ''o1'')) [line_10x2, line_5x1],
                   cart_items := [other_users_line],
                   calls := [InsertOrder, InsertOrderItems, ClearCart]\<rparr>)"
proof -
  let ?u = "js ''u1''" and ?c = "[line_10x2, line_5x1]"
  have a: "order_error order_fails = Some (StoreError (js ''orders down''))"
    by (simp add: order_fails_def all_ok_def)
  have b: "order_error items_fail = None \<and> items_error items_fail = Some (StoreError (js ''items down''))"
    by (simp add: items_fail_def all_ok_def)
  have c: "order_error clear_fails = None \<and> items_error clear_fails = None \<and>
           clear_error clear_fails = Some (StoreError (js ''cart down''))"
    by (simp add: clear_fails_def all_ok_def)
  have d: "order_error all_ok = None \<and> items_error all_ok = None \<and> clear_error all_ok = None"
    by (simp add: all_ok_def)
  have ids: "new_order_id clear_fails = js ''o1''" "new_order_id all_ok = js ''o1''"
    by (simp_all add: clear_fails_def all_ok_def)
  have shop: "orders demo_shop = []" "order_items demo_shop = []" "calls demo_shop = []"
    "cart_items demo_shop = [line_10x2, other_users_line, line_5x1]"
    by (simp_all add: demo_shop_def)
  have keep: "filter (\<lambda>c. cart_user_id c \<noteq> ?u) (cart_items demo_shop) = [other_users_line]"
    by (simp add: demo_shop_def line_10x2_def line_5x1_def other_users_line_def js_def)
  from a checkout_writes_no_rollback [of order_fails _ ?u ?c demo_shop]
  have 1: "createOrder order_fails (Some ?u) (Some ?c) demo_shop
     = (Inl (StoreError (js ''orders down'')), demo_shop\<lparr>calls := calls demo_shop @ [InsertOrder]\<rparr>)"
    by blast
  from b checkout_writes_no_rollback [of items_fail _ ?u ?c demo_shop]
  have 2: "createOrder items_fail (Some ?u) (Some ?c) demo_shop
     = (Inl (StoreError (js ''items down'')),
        demo_shop\<lparr>orders := orders demo_shop @ [new_order items_fail ?u (checkout_total ?c)],
                   calls := calls demo_shop @ [InsertOrder, InsertOrderItems]\<rparr>)"
    by blast
  from c checkout_writes_no_rollback [of clear_fails _ ?u ?c demo_shop]
  have 3: "createOrder clear_fails (Some ?u) (Some ?c) demo_shop
     = (Inl (StoreError (js ''cart down'')),
        demo_shop\<lparr>orders := orders demo_shop @ [new_order clear_fails ?u (checkout_total ?c)],
                   order_items := order_items demo_shop @ map (order_item_of (new_order_id clear_fails)) ?c,
                   calls := calls demo_shop @ [InsertOrder, InsertOrderItems, ClearCart]\<rparr>)"
    by blast
  from d checkout_writes_no_rollback [of all_ok _ ?u ?c demo_shop]
  have 4: "createOrder all_ok (Some ?u) (Some ?c) demo_shop
     = (Inr (checkout_total ?c),
        demo_shop\<lparr>orders := orders demo_shop @ [new_order all_ok ?u (checkout_total ?c)],
                   order_items := order_items demo_shop @ map (order_item_of (new_order_id all_ok)) ?c,
                   cart_items := filter (\<lambda>c. cart_user_id c \<noteq> ?u) (cart_items demo_shop),
                   calls := calls demo_shop @ [InsertOrder, InsertOrderItems, ClearCart]\<rparr>)"
    by blast
  show ?thesis
    unfolding 1 2 3 4 keep by (simp add: shop ids demo_total)
qed

section \<open>The public blog listing\<close>

lemma public_blogs_query_rows:
  "public_blogs_query error table = Inr rows \<Longrightarrow>
     set rows = {b \<in> set table. blog_is_published b} \<and>
     mset rows = mset (filter blog_is_published table) \<and>
     sorted (rev (map blog_created_at rows))"
  by (auto simp add: public_blogs_query_def order_desc_def rev_map split: option.splits)

lemma demo_public_query:
  "public_blogs_query None [old_row, other_row, newer_row] = Inr [newer_row, other_row]"
  by (simp add: public_blogs_query_def order_desc_def old_row_def other_row_def newer_row_def)

text \<open>
  C8.  The public listing asks for the rows whose \<open>is_published\<close> equals \<open>true\<close> and
  orders what passes the filter.  So the rows of a fetched result are exactly the
  published rows of the table, each as often as the table has it, latest first; every
  blog the page shows is published, and a row that is not published is never shown.
\<close>

theorem public_listing_only_published:
  "(public_blogs_query error table = Inr rows \<longrightarrow>
      (\<forall>b\<in>set rows. blog_is_published b) \<and>
      set rows = {b \<in> set table. blog_is_published b} \<and>
      mset rows = mset (filter blog_is_published table) \<and>
      sorted (rev (map blog_created_at rows))) \<and>
   (\<forall>b\<in>set (shown_blogs (public_blogs_query error table)). blog_is_published b) \<and>
   (draft \<in> set table \<and> \<not> blog_is_published draft \<longrightarrow>
      draft \<notin> set (shown_blogs (public_blogs_query error table)))"
proof -
  have rows: "set rows = {b \<in> set table. blog_is_published b} \<and>
      mset rows = mset (filter blog_is_published table) \<and>
      sorted (rev (map blog_created_at rows))"
    if "public_blogs_query error table = Inr rows" for rows
    using that by (rule public_blogs_query_rows)
  have shown: "blog_is_published b" if "b \<in> set (shown_blogs (public_blogs_query error table))" for b
  proof (cases "public_blogs_query error table")
    case (Inl err)
    with that show ?thesis by (simp add: shown_blogs_def)
  next
    case (Inr data)
    with that rows [OF Inr] show ?thesis by (simp add: shown_blogs_def)
  qed
  from rows shown show ?thesis by blast
qed

theorem public_listing_only_published_witness:
  "public_blogs_query None [old_row, other_row, newer_row] = Inr [newer_row, other_row] \<and>
   set [newer_row, other_row] = {b \<in> set [old_row, other_row, newer_row]. blog_is_published b} \<and>
   blog_is_published newer_row \<and> blog_is_published other_row \<and>
   old_row \<in> set [old_row, other_row, newer_row] \<and> \<not> blog_is_published old_row \<and>
   old_row \<notin> set (shown_blogs (public_blogs_query None [old_row, other_row, newer_row]))"
proof -
  note q = demo_public_query
  note t = public_listing_only_published [of None "[old_row, other_row, newer_row]" "[newer_row, other_row]" old_row]
  from q t have 1: "\<forall>b\<in>set [newer_row, other_row]. blog_is_published b" by blast
  from q t have 2: "set [newer_row, other_row]
      = {b \<in> set [old_row, other_row, newer_row]. blog_is_published b}" by blast
  have 3: "old_row \<in> set [old_row, other_row, newer_row] \<and> \<not> blog_is_published old_row"
    by (simp add: old_row_def)
  from 3 t have 4: "old_row \<notin> set (shown_blogs (public_blogs_query None [old_row, other_row, newer_row]))"
    by blast
  from 1 have 5: "blog_is_published newer_row \<and> blog_is_published other_row" by simp
  from q 2 3 4 5 show ?thesis by blast
qed

section \<open>The media parser\<close>

text \<open>What the parser does, for every decoder: an array is handed back as it is, a string
  gives what it decodes to, a string that fails to decode gives the empty list, any
  other cell gives the empty list; the parser itself never throws.\<close>

lemma media_parser_cases:
  "media_parser JSON_parse (Arr xs) = Inr (Arr xs)"
  "JSON_parse s = Inr v \<Longrightarrow> media_parser JSON_parse (Str s) = Inr v"
  "JSON_parse s = Inl err \<Longrightarrow> media_parser JSON_parse (Str s) = Inr (Arr [])"
  "\<not> isArray cell \<Longrightarrow> (\<forall>s. cell \<noteq> Str s) \<Longrightarrow> media_parser JSON_parse cell = Inr (Arr [])"
  by (auto simp add: media_parser_def isArray_def split: jsval.splits sum.splits)

lemma media_parser_never_throws: "\<exists>media. media_parser JSON_parse cell = Inr media"
  by (simp add: media_parser_def split: jsval.splits sum.splits)

text \<open>
  C1.  The claim has the parser give the empty list for every input that is not a list or
  the JSON text of a list.  A string cell that decodes to a value that is not a list
  (\<open>null\<close>, an object, a number, a string) is handed on as that value: the parser's
  result is then not a list, and the card's \<open>media.filter\<close> throws.
\<close>

theorem media_parser_decoded_non_list:
  "JSON_parse s = Inr v \<and> \<not> isArray v \<longrightarrow>
     media_parser JSON_parse (Str s) = Inr v \<and>
     media_parser JSON_parse (Str s) \<noteq> Inr (Arr []) \<and>
     card_images JSON_parse (Str s) = Inl TypeError"
  by (auto simp add: media_parser_def card_images_def isArray_def split: jsval.splits)

theorem media_parser_decoded_non_list_witness:
  "demo_decoder (js ''null'') = Inr Null \<and> \<not> isArray Null \<and>
   media_parser demo_decoder (Str (js ''null'')) = Inr Null \<and>
   card_images demo_decoder (Str (js ''null'')) = Inl TypeError \<and>
   media_parser demo_decoder (Str (js ''{}'')) = Inr (Obj []) \<and>
   card_images demo_decoder (Str (js ''{}'')) = Inl TypeError"
proof -
  have a: "demo_decoder (js ''null'') = Inr Null \<and> \<not> isArray Null"
    and b: "demo_decoder (js ''{}'') = Inr (Obj []) \<and> \<not> isArray (Obj [])"
    by (simp_all add: demo_decoder_def isArray_def js_def)
  from a media_parser_decoded_non_list [of demo_decoder "js ''null''" Null]
  have 1: "media_parser demo_decoder (Str (js ''null'')) = Inr Null \<and>
           card_images demo_decoder (Str (js ''null'')) = Inl TypeError" by blast
  from b media_parser_decoded_non_list [of demo_decoder "js ''{}''" "Obj []"]
  have 2: "media_parser demo_decoder (Str (js ''{}'')) = Inr (Obj []) \<and>
           card_images demo_decoder (Str (js ''{}'')) = Inl TypeError" by blast
  from a 1 2 show ?thesis by blast
qed

lemma demo_media_parser:
  "media_parser demo_decoder (Arr [Str (js ''x'')]) = Inr (Arr [Str (js ''x'')])"
  "media_parser demo_decoder (Str (js ''[{\"type\":\"image\",\"url\":\"u\"}]''))
     = Inr (Arr [Obj [(js ''type'', Str (js ''image'')), (js ''url'', Str (js ''u''))]])"
  "card_images demo_decoder (Str (js ''[{\"type\":\"image\",\"url\":\"u\"}]''))
     = Inr [Obj [(js ''type'', Str (js ''image'')), (js ''url'', Str (js ''u''))]]"
  "media_parser demo_decoder (Str (js ''{oops'')) = Inr (Arr [])"
  "media_parser demo_decoder Null = Inr (Arr [])"
  "media_parser demo_decoder Undefined = Inr (Arr [])"
  "media_parser demo_decoder (Num (Fin 4)) = Inr (Arr [])"
  by (simp_all add: media_parser_def card_images_def demo_decoder_def property_def js_def)

section \<open>Percent-encoding\<close>


















lemma encode_error: "encodeURIComponent s = Inl err \<Longrightarrow> err = URIError"
  by (induction s arbitrary: err rule: encodeURIComponent.induct)
    (auto split: if_splits sum.splits list.splits)


















end
